theory Spec2Isabelle
  imports Main "HOL-Library.Sublist"
begin

section \<open>Python values and exceptions\<close>

text \<open>
  The exceptions the modelled functions can raise. A function that can raise returns a
  sum: \<open>Inl\<close> the exception, \<open>Inr\<close> the value.
\<close>

datatype py_error =
    KeyError | TypeError | AttributeError | IndexError | NameError | OSError | UnicodeDecodeError

text \<open>
  A JSON-like Python value, as the profile, interaction and FSM-data dictionaries hold
  them. A float is kept as the text Python prints for it: no claim computes with one.
  A dictionary keeps its insertion order.
\<close>

datatype pyval =
    VNone
  | VBool bool
  | VInt int
  | VFloat string
  | VStr string
  | VDict "(string \<times> pyval) list"

section \<open>Selector learning store (class SelectorLearner)\<close>

text \<open>
  One learned entry, with the keys \<open>add_selector\<close> writes. The key
  \<open>last_success\<close> is absent until the entry is recorded a second time.
\<close>

record entry =
  selector :: string
  context_note :: string
  learned_at :: string
  success_count :: int
  last_success :: "string option"

type_synonym store = "string \<rightharpoonup> entry list"

text \<open>
  What \<open>learned_selectors.json\<close> is when it is read: no such file; a file that
  \<open>open\<close> cannot open for another reason; bytes that are not valid text in the
  default encoding; text that is not JSON; or a serialised store.
\<close>

datatype file_content = Missing | Unreadable | NotText | NotJson | Json store

record learner =
  learned_selectors :: store
  selectors_file :: file_content
  file_writable :: bool

definition default_store :: store where
  "default_store =
     [''signin_selectors'' \<mapsto> [],
      ''create_account_selectors'' \<mapsto> [],
      ''continue_selectors'' \<mapsto> []]"



text \<open>
  \<open>save_learned_selectors\<close> rewrites the file from the in-memory store; a failing
  \<open>open(..., 'w')\<close> raises and leaves the file as it was.
\<close>

definition save_learned_selectors :: "learner \<Rightarrow> py_error option \<times> learner" where
  "save_learned_selectors l =
     (if file_writable l
      then (None, l\<lparr>selectors_file := Json (learned_selectors l)\<rparr>)
      else (Some OSError, l))"

definition entries_of :: "store \<Rightarrow> string \<Rightarrow> entry list" where
  "entries_of st category = (case st category of None \<Rightarrow> [] | Some es \<Rightarrow> es)"

text \<open>
  The \<open>for entry in ...\<close> loop of \<open>add_selector\<close>: the first entry with the
  same selector gets its counter incremented and its \<open>last_success\<close> set, and the
  loop breaks. \<open>None\<close> is the case \<open>existing = False\<close>.
\<close>

fun bump_existing :: "string \<Rightarrow> string \<Rightarrow> entry list \<Rightarrow> entry list option" where
  "bump_existing sel now [] = None"
| "bump_existing sel now (e # es) =
     (if selector e = sel
      then Some (e\<lparr>success_count := success_count e + 1, last_success := Some now\<rparr> # es)
      else map_option ((#) e) (bump_existing sel now es))"

text \<open>
  \<open>add_selector(category, selector, context)\<close>. The two readings of the clock
  (\<open>datetime.now()\<close> for \<open>learned_at\<close> and for \<open>last_success\<close>) are the
  arguments \<open>now0\<close> and \<open>now1\<close>. The store is mutated in memory first and
  saved afterwards, so a failing save leaves the mutation in memory.
\<close>

definition add_selector ::
  "string \<Rightarrow> string \<Rightarrow> string \<Rightarrow> string \<Rightarrow> string \<Rightarrow> learner \<Rightarrow> py_error option \<times> learner" where
  "add_selector category sel ctx now0 now1 l =
     (let es = entries_of (learned_selectors l) category;
          selector_entry = \<lparr>selector = sel, context_note = ctx, learned_at = now0,
                            success_count = 1, last_success = None\<rparr>;
          es' = (case bump_existing sel now1 es of
                   Some bumped \<Rightarrow> bumped
                 | None \<Rightarrow> es @ [selector_entry])
      in save_learned_selectors (l\<lparr>learned_selectors := (learned_selectors l)(category \<mapsto> es')\<rparr>))"

text \<open>\<open>get_combined_selectors(category, base_selectors)\<close>.\<close>

definition get_combined_selectors :: "learner \<Rightarrow> string \<Rightarrow> string list \<Rightarrow> string list" where
  "get_combined_selectors l category base_selectors =
     (let learned = map selector (entries_of (learned_selectors l) category)
      in learned @ filter (\<lambda>s. s \<notin> set learned) base_selectors)"

text \<open>
  The learner of a process started with no \<open>learned_selectors.json\<close> on a writable
  disk: \<open>__init__\<close> loads the default store.
\<close>

definition fresh_learner :: learner where
  "fresh_learner = \<lparr>learned_selectors = default_store, selectors_file = Missing, file_writable = True\<rparr>"

section \<open>Selector resolver (find\_element\_robust)\<close>

text \<open>
  The browser is an external capability. A page answers the \<open>n\<close>-th probe made on it
  for a selector with one of three outcomes of \<open>page.wait_for_selector\<close>: the element
  appeared, \<open>PlaywrightTimeoutError\<close> was raised, or another \<open>Exception\<close> was
  raised. The answer may change from probe to probe (the document is live). The page
  records the selectors probed on it, oldest first.
\<close>

datatype probe_outcome = Appeared | TimedOut | Errored

record page =
  dom_probe :: "nat \<Rightarrow> string \<Rightarrow> probe_outcome"
  probed :: "string list"

definition wait_for_selector :: "page \<Rightarrow> string \<Rightarrow> probe_outcome \<times> page" where
  "wait_for_selector p s =
     (dom_probe p (length (probed p)) s, p\<lparr>probed := probed p @ [s]\<rparr>)"

text \<open>
  \<open>find_element_robust(page, selectors)\<close>: the \<open>for\<close> loop returns the selector
  at the first probe that does not raise; both handlers \<open>continue\<close>; after the loop
  the result is \<open>None\<close>.
\<close>

fun find_element_robust :: "page \<Rightarrow> string list \<Rightarrow> string option \<times> page" where
  "find_element_robust p [] = (None, p)"
| "find_element_robust p (s # ss) =
     (case wait_for_selector p s of
        (Appeared, p') \<Rightarrow> (Some s, p')
      | (TimedOut, p') \<Rightarrow> find_element_robust p' ss
      | (Errored, p') \<Rightarrow> find_element_robust p' ss)"

text \<open>A page on which only \<open>sel\<close> ever resolves; \<open>bad\<close> raises a non-timeout error.\<close>

definition page_with_only :: "string \<Rightarrow> string \<Rightarrow> page" where
  "page_with_only sel bad =
     \<lparr>dom_probe = (\<lambda>n s. if s = sel then Appeared else if s = bad then Errored else TimedOut),
      probed = []\<rparr>"

section \<open>Learned-interaction categorizer (categorize\_interaction)\<close>

type_synonym pydict = "(string \<times> pyval) list"

text \<open>\<open>d.get(k, default)\<close> on a dictionary.\<close>

definition dict_get :: "pydict \<Rightarrow> string \<Rightarrow> pyval \<Rightarrow> pyval" where
  "dict_get d k dflt = (case map_of d k of None \<Rightarrow> dflt | Some v \<Rightarrow> v)"

text \<open>
  \<open>str.lower\<close> and \<open>str.upper\<close> on the ASCII letters; other characters are kept
  (Python also maps letters outside ASCII).
\<close>

definition lower_char :: "char \<Rightarrow> char" where
  "lower_char c =
     (case map_of (zip ''ABCDEFGHIJKLMNOPQRSTUVWXYZ'' ''abcdefghijklmnopqrstuvwxyz'') c of
        Some d \<Rightarrow> d
      | None \<Rightarrow> c)"

definition upper_char :: "char \<Rightarrow> char" where
  "upper_char c =
     (case map_of (zip ''abcdefghijklmnopqrstuvwxyz'' ''ABCDEFGHIJKLMNOPQRSTUVWXYZ'') c of
        Some d \<Rightarrow> d
      | None \<Rightarrow> c)"

definition lower :: "string \<Rightarrow> string" where
  "lower s = map lower_char s"

definition upper :: "string \<Rightarrow> string" where
  "upper s = map upper_char s"

text \<open>
  \<open>categorize_interaction(context, interaction)\<close>. \<open>w in text\<close> on strings is the
  contiguous-substring test \<open>sublist w text\<close>. \<open>.lower()\<close> on a \<open>text\<close> that is
  not a string raises \<open>AttributeError\<close>, as does \<open>.get\<close> on \<open>attributes\<close> that
  is not a dictionary (reached in the fourth branch only).
\<close>

definition categorize_interaction :: "string \<Rightarrow> pydict \<Rightarrow> py_error + string" where
  "categorize_interaction ctx interaction =
     (case dict_get interaction ''text'' (VStr []) of
        VStr t \<Rightarrow>
          (let text = lower t;
               attrs = dict_get interaction ''attributes'' (VDict [])
           in if ctx = ''signin'' then Inr ''signin_selectors''
              else if list_ex (\<lambda>word. sublist word text)
                        [''continue'', ''verify'', ''create'', ''submit'']
                then Inr ''create_account_selectors''
              else if list_ex (\<lambda>word. sublist word text)
                        [''continue'', ''next'', ''proceed'']
                then Inr ''continue_selectors''
              else (case attrs of
                      VDict a \<Rightarrow>
                        (if map_of a ''type'' = Some (VStr ''submit'') \<or>
                            map_of a ''type'' = Some (VStr ''button'')
                         then Inr ''create_account_selectors''
                         else Inr ''signin_selectors'')
                    | _ \<Rightarrow> Inl AttributeError))
      | _ \<Rightarrow> Inl AttributeError)"

section \<open>Integers as text and the random source\<close>

text \<open>Decimal text of an integer, as \<open>format\<close> gives it.\<close>

fun str_nat :: "nat \<Rightarrow> string" where
  "str_nat n =
     (if n < 10 then [''0123456789'' ! n]
      else str_nat (n div 10) @ [''0123456789'' ! (n mod 10)])"

declare str_nat.simps [simp del]

definition str_int :: "int \<Rightarrow> string" where
  "str_int i = (if i < 0 then ''-'' @ str_nat (nat (- i)) else str_nat (nat i))"

text \<open>
  The module \<open>random\<close> is a source of draws: every call consumes the next natural
  number of an arbitrary sequence. \<open>random.choice\<close> takes the element at the draw
  modulo the length, \<open>random.randint(a, b)\<close> the draw modulo the width of the range,
  \<open>random.random()\<close> the draw modulo 100 as hundredths, and
  \<open>round(random.uniform(a, b), 1)\<close> tenths between the bounds. \<open>random.choices\<close>
  with positive weights can return any element; the weights only shape the
  distribution and are left out. Every outcome the code can produce is the outcome of
  some sequence.
\<close>

record rng =
  draws :: "nat \<Rightarrow> nat"
  pos :: nat

definition advance :: "rng \<Rightarrow> rng" where
  "advance r = r\<lparr>pos := Suc (pos r)\<rparr>"

definition random_choice :: "'a list \<Rightarrow> rng \<Rightarrow> 'a \<times> rng" where
  "random_choice xs r = (xs ! (draws r (pos r) mod length xs), advance r)"

definition random_choices :: "'a list \<Rightarrow> rng \<Rightarrow> 'a \<times> rng" where
  "random_choices population r = random_choice population r"

definition random_randint :: "int \<Rightarrow> int \<Rightarrow> rng \<Rightarrow> int \<times> rng" where
  "random_randint a b r = (a + int (draws r (pos r) mod nat (b - a + 1)), advance r)"

definition random_random :: "rng \<Rightarrow> nat \<times> rng" where
  "random_random r = (draws r (pos r) mod 100, advance r)"

definition random_uniform_tenths :: "nat \<Rightarrow> nat \<Rightarrow> rng \<Rightarrow> string \<times> rng" where
  "random_uniform_tenths lo hi r =
     (let t = lo + draws r (pos r) mod (hi - lo + 1)
      in (str_nat (t div 10) @ ''.'' @ str_nat (t mod 10), advance r))"

text \<open>A sequence of draws that is constant.\<close>

definition constant_rng :: "nat \<Rightarrow> rng" where
  "constant_rng n = \<lparr>draws = (\<lambda>i. n), pos = 0\<rparr>"

section \<open>Stealth script synthesizer (generate\_ultimate\_stealth\_script)\<close>

text \<open>
  The function returns one f-string: 41 literal chunks of browser-side code with 40
  replacement fields between them. The literal chunks are constant text and are taken
  as a parameter, as is Python's \<open>repr\<close> of a dictionary (used only when a field
  that is formatted holds a dictionary).
\<close>

record template =
  lit :: "nat \<Rightarrow> string"
  dict_repr :: "pydict \<Rightarrow> string"

text \<open>
  What a function of the module can read and change besides its arguments: the state of
  the random source and the module-level variables. Every modelled piece of code that
  evaluates an f-string takes the world and returns it.
\<close>

record world =
  random_state :: rng
  module_globals :: pydict

text \<open>\<open>format(v, '')\<close>, what a replacement field \<open>{v}\<close> renders.\<close>

definition py_format :: "template \<Rightarrow> pyval \<Rightarrow> string" where
  "py_format T v =
     (case v of
        VNone \<Rightarrow> ''None''
      | VBool b \<Rightarrow> (if b then ''True'' else ''False'')
      | VInt i \<Rightarrow> str_int i
      | VFloat s \<Rightarrow> s
      | VStr s \<Rightarrow> s
      | VDict d \<Rightarrow> dict_repr T d)"

text \<open>\<open>d[k]\<close>: only a dictionary can be subscripted with a string.\<close>

definition subscript :: "pyval \<Rightarrow> string \<Rightarrow> py_error + pyval" where
  "subscript v k =
     (case v of
        VDict d \<Rightarrow> (case map_of d k of None \<Rightarrow> Inl KeyError | Some x \<Rightarrow> Inr x)
      | _ \<Rightarrow> Inl TypeError)"

text \<open>
  \<open>s.split(sep)\<close> for a non-empty separator: the pieces between the occurrences of
  \<open>sep\<close>, scanning from the left. \<open>acc\<close> is the current piece, reversed.
\<close>

function split_acc :: "string \<Rightarrow> string \<Rightarrow> string \<Rightarrow> string list" where
  "split_acc sep acc [] = [rev acc]"
| "split_acc sep acc (c # cs) =
     (if sep \<noteq> [] \<and> prefix sep (c # cs)
      then rev acc # split_acc sep [] (drop (length sep) (c # cs))
      else split_acc sep (c # acc) cs)"
  by pat_completeness auto
termination
  by (relation "measure (\<lambda>(sep, acc, s). length s)") auto

definition str_split :: "string \<Rightarrow> string \<Rightarrow> string list" where
  "str_split s sep = split_acc sep [] s"

text \<open>
  The expression
  \<open>profile['user_agent'].split('Mozilla/')[1] if 'Mozilla/' in profile['user_agent'] else '5.0'\<close>.
  \<open>in\<close> is the substring test on a string and the key test on a dictionary, and
  raises \<open>TypeError\<close> on the other values.
\<close>

definition app_version :: "pyval \<Rightarrow> py_error + string" where
  "app_version ua =
     (case ua of
        VStr s \<Rightarrow>
          (if sublist ''Mozilla/'' s
           then (case str_split s ''Mozilla/'' of
                   _ # piece # _ \<Rightarrow> Inr piece
                 | _ \<Rightarrow> Inl IndexError)
           else Inr ''5.0'')
      | VDict d \<Rightarrow> (if map_of d ''Mozilla/'' \<noteq> None then Inl AttributeError else Inr ''5.0'')
      | _ \<Rightarrow> Inl TypeError)"

text \<open>The first statement: a new dictionary of sixteen keys, each with its default.\<close>

definition with_defaults :: "pydict \<Rightarrow> pydict" where
  "with_defaults profile =
     [(''os'', dict_get profile ''os'' (VStr ''Windows'')),
      (''type'', dict_get profile ''type'' (VStr ''desktop'')),
      (''platform'', dict_get profile ''platform'' (VStr ''Win32'')),
      (''user_agent'', dict_get profile ''user_agent''
         (VStr ''Mozilla/5.0 (Windows NT 10.0; Win64; x64) AppleWebKit/537.36'')),
      (''hardware_concurrency'', dict_get profile ''hardware_concurrency'' (VInt 8)),
      (''device_memory'', dict_get profile ''device_memory'' (VInt 16)),
      (''max_touch_points'', dict_get profile ''max_touch_points'' (VInt 0)),
      (''screen'', dict_get profile ''screen''
         (VDict [(''width'', VInt 1920), (''height'', VInt 1080)])),
      (''connection_type'', dict_get profile ''connection_type'' (VStr ''wifi'')),
      (''connection_rtt'', dict_get profile ''connection_rtt'' (VInt 50)),
      (''connection_downlink'', dict_get profile ''connection_downlink'' (VFloat ''25.0'')),
      (''webgl_vendor'', dict_get profile ''webgl_vendor'' (VStr ''Google Inc.'')),
      (''webgl_renderer'', dict_get profile ''webgl_renderer'' (VStr ''Generic GPU'')),
      (''locale'', dict_get profile ''locale'' (VStr ''en-US'')),
      (''city'', dict_get profile ''city'' (VStr ''Unknown'')),
      (''is_mobile'', dict_get profile ''is_mobile'' (VBool False))]"

text \<open>
  The replacement fields of the module's f-strings, by the shape of their expression:
  \<open>{profile[k]}\<close>, \<open>{profile[k].upper()}\<close>, \<open>{profile[k].lower()}\<close>,
  \<open>{profile[k][k2]}\<close>, the \<open>appVersion\<close> expression, \<open>{profile.get(k, d)}\<close>,
  a string literal, \<open>{random.randint(a, b)}\<close> (as in the version strings of the
  profile generators), and a field that formats a module-level variable (the log lines
  read such variables, \<open>allowed_users\<close> for one). The last two are the fields whose
  value depends on the world; \<open>random.randint\<close> also changes it.
\<close>

datatype field =
    Fmt string
  | Upper string
  | Lower string
  | Sub string string
  | AppVersion
  | GetFmt string string
  | Const string
  | RandInt int int
  | Global string

definition eval_field ::
  "template \<Rightarrow> pydict \<Rightarrow> field \<Rightarrow> world \<Rightarrow> (py_error + string) \<times> world" where
  "eval_field T profile f w =
     (case f of
        Fmt k \<Rightarrow>
          (case subscript (VDict profile) k of
             Inl e \<Rightarrow> (Inl e, w)
           | Inr v \<Rightarrow> (Inr (py_format T v), w))
      | Upper k \<Rightarrow>
          (case subscript (VDict profile) k of
             Inl e \<Rightarrow> (Inl e, w)
           | Inr (VStr s) \<Rightarrow> (Inr (upper s), w)
           | Inr _ \<Rightarrow> (Inl AttributeError, w))
      | Lower k \<Rightarrow>
          (case subscript (VDict profile) k of
             Inl e \<Rightarrow> (Inl e, w)
           | Inr (VStr s) \<Rightarrow> (Inr (lower s), w)
           | Inr _ \<Rightarrow> (Inl AttributeError, w))
      | Sub k k2 \<Rightarrow>
          (case subscript (VDict profile) k of
             Inl e \<Rightarrow> (Inl e, w)
           | Inr d \<Rightarrow>
               (case subscript d k2 of
                  Inl e \<Rightarrow> (Inl e, w)
                | Inr v \<Rightarrow> (Inr (py_format T v), w)))
      | AppVersion \<Rightarrow>
          (case subscript (VDict profile) ''user_agent'' of
             Inl e \<Rightarrow> (Inl e, w)
           | Inr ua \<Rightarrow> (app_version ua, w))
      | GetFmt k d \<Rightarrow> (Inr (py_format T (dict_get profile k (VStr d))), w)
      | Const s \<Rightarrow> (Inr s, w)
      | RandInt a b \<Rightarrow>
          (let (n, r) = random_randint a b (random_state w)
           in (Inr (str_int n), w\<lparr>random_state := r\<rparr>))
      | Global name \<Rightarrow>
          (case map_of (module_globals w) name of
             None \<Rightarrow> (Inl NameError, w)
           | Some v \<Rightarrow> (Inr (py_format T v), w)))"

text \<open>The forty replacement fields, in the order they stand in the f-string.\<close>

definition script_fields :: "field list" where
  "script_fields =
     [Fmt ''os'', Upper ''type'', Fmt ''os'', Fmt ''platform'', Fmt ''user_agent'',
      Fmt ''hardware_concurrency'', Fmt ''device_memory'', Fmt ''max_touch_points'',
      Sub ''screen'' ''width'', Sub ''screen'' ''height'',
      Sub ''screen'' ''width'', Sub ''screen'' ''height'',
      Fmt ''connection_type'', Fmt ''connection_rtt'', Fmt ''connection_downlink'',
      Fmt ''webgl_vendor'', Fmt ''webgl_renderer'', Fmt ''os'', Lower ''os'',
      Fmt ''locale'', Fmt ''locale'',
      Const ''if (!navigator.battery) {navigator.battery = {charging: Math.random() > 0.5, level: Math.random()};}'',
      AppVersion, Fmt ''user_agent'',
      GetFmt ''webgl_vendor'' ''Google Inc. (NVIDIA)'',
      GetFmt ''webgl_renderer'' ''ANGLE (NVIDIA GeForce GTX 1660 Direct3D11)'',
      GetFmt ''browser'' ''chrome'', GetFmt ''browser'' ''chrome'',
      Fmt ''user_agent'', Fmt ''user_agent'',
      GetFmt ''timezone'' ''America/New_York'',
      Fmt ''hardware_concurrency'', Fmt ''device_memory'',
      GetFmt ''timezone'' ''America/New_York'',
      Fmt ''webgl_vendor'', Fmt ''webgl_renderer'',
      GetFmt ''timezone'' ''America/New_York'',
      Fmt ''os'', Fmt ''type'', GetFmt ''city'' ''Unknown'']"

text \<open>
  Evaluating an f-string: the fields are evaluated from left to right, each in the world
  the one before left; the first exception ends the evaluation; and the text is chunk
  \<open>i\<close>, field, chunk \<open>i + 1\<close>, and so on.
\<close>

fun render ::
  "template \<Rightarrow> pydict \<Rightarrow> nat \<Rightarrow> field list \<Rightarrow> world \<Rightarrow> (py_error + string) \<times> world" where
  "render T profile i [] w = (Inr (lit T i), w)"
| "render T profile i (f # fs) w =
     (case eval_field T profile f w of
        (Inl e, w1) \<Rightarrow> (Inl e, w1)
      | (Inr s, w1) \<Rightarrow>
          (case render T profile (Suc i) fs w1 of
             (Inl e, w2) \<Rightarrow> (Inl e, w2)
           | (Inr rest, w2) \<Rightarrow> (Inr (lit T i @ s @ rest), w2)))"

text \<open>
  The function: the dictionary with defaults, then the one f-string. The caller's
  dictionary is not touched: the name \<open>profile\<close> is bound to a new dictionary.
\<close>

definition generate_ultimate_stealth_script ::
  "template \<Rightarrow> pydict \<Rightarrow> world \<Rightarrow> (py_error + string) \<times> world" where
  "generate_ultimate_stealth_script T profile w =
     render T (with_defaults profile) 0 script_fields w"

text \<open>The fields whose evaluation neither reads nor changes the world.\<close>

definition pure_field :: "field \<Rightarrow> bool" where
  "pure_field f = (case f of RandInt _ _ \<Rightarrow> False | Global _ \<Rightarrow> False | _ \<Rightarrow> True)"

text \<open>The keys of the argument that the function reads.\<close>

definition consumed_keys :: "string list" where
  "consumed_keys =
     [''os'', ''type'', ''platform'', ''user_agent'', ''hardware_concurrency'',
      ''device_memory'', ''max_touch_points'', ''screen'', ''connection_type'',
      ''connection_rtt'', ''connection_downlink'', ''webgl_vendor'', ''webgl_renderer'',
      ''locale'', ''city'', ''is_mobile'']"

text \<open>
  A profile whose present fields have the types the profile generators give them: text
  for \<open>os\<close>, \<open>type\<close> and \<open>user_agent\<close>, and a \<open>screen\<close> dictionary with
  \<open>width\<close> and \<open>height\<close>. An absent field passes.
\<close>

definition is_text :: "pyval \<Rightarrow> bool" where
  "is_text v = (case v of VStr _ \<Rightarrow> True | _ \<Rightarrow> False)"

definition is_screen :: "pyval \<Rightarrow> bool" where
  "is_screen v =
     (case v of
        VDict d \<Rightarrow> map_of d ''width'' \<noteq> None \<and> map_of d ''height'' \<noteq> None
      | _ \<Rightarrow> False)"

definition generator_typed :: "pydict \<Rightarrow> bool" where
  "generator_typed profile =
     (is_text (dict_get profile ''os'' (VStr [])) \<and>
      is_text (dict_get profile ''type'' (VStr [])) \<and>
      is_text (dict_get profile ''user_agent'' (VStr [])) \<and>
      is_screen (dict_get profile ''screen'' (VDict [(''width'', VInt 0), (''height'', VInt 0)])))"

text \<open>A template whose literal chunks are all the one character \<open>#\<close>, for evaluating the model.\<close>

definition plain_template :: template where
  "plain_template = \<lparr>lit = (\<lambda>i. ''#''), dict_repr = (\<lambda>d. ''{...}'')\<rparr>"

text \<open>A world whose draws are all \<open>n\<close> and which has no module-level variable.\<close>

definition world_of_draw :: "nat \<Rightarrow> world" where
  "world_of_draw n = \<lparr>random_state = constant_rng n, module_globals = []\<rparr>"

section \<open>Registration flow (handler got\_email)\<close>

text \<open>
  The FSM states of \<open>RegFlow\<close> and the FSM data of one chat. Only \<open>got_email\<close>
  writes the data, so the keys and their types are those of its \<open>update_data\<close> calls.
  A key is absent (\<open>None\<close>) or holds a value; \<open>previous_email\<close> and
  \<open>restart_reason\<close> can hold Python's \<open>None\<close> (\<open>Some None\<close>).
\<close>

datatype reg_flow = waiting_for_email | waiting_for_captcha | waiting_for_otp | learning_mode

record flow_data =
  d_email :: "string option"
  d_full_name :: "string option"
  d_password :: "string option"
  d_previous_email :: "string option option"
  d_restart_reason :: "string option option"
  d_original_full_name :: "string option"
  d_original_password :: "string option"
  d_retry_with_proxy :: "bool option"
  d_puzzle_retry_count :: "int option"

definition no_data :: flow_data where
  "no_data =
     \<lparr>d_email = None, d_full_name = None, d_password = None, d_previous_email = None,
      d_restart_reason = None, d_original_full_name = None, d_original_password = None,
      d_retry_with_proxy = None, d_puzzle_retry_count = None\<rparr>"

text \<open>The messages the handler answers with, by their headline.\<close>

datatype notice =
    InvalidEmail
  | ActiveSessionDetected
  | StartingAccountCreation
  | RestartingAccountCreation
  | RetryingWithProxy
  | StepFailed
  | ProxyAuthenticationError
  | EmailAlreadyUsed
  | PhoneVerificationRequired
  | SecurityBlock
  | PuzzleActivatingFreeProxy
  | FreeProxyConfigured
  | NoFreeProxy
  | PuzzleTryingOtherProxy
  | NewProxyConfigured
  | PuzzlePersists
  | EnterVerificationCode

text \<open>
  What the chat and the browser see: a message sent, or a browser launched with a fresh
  profile for an email, full name and password, through the proxy or not.
\<close>

datatype event =
    Said notice
  | Launched bool string string string

record bot =
  fsm :: "reg_flow option"
  fsm_data :: flow_data
  proxy_enabled :: bool
  proxy_server :: string
  session_active :: bool
  events :: "event list"

text \<open>
  One pass through the body of \<open>got_email\<close> observes: whether the user still has
  access; the random picks for the name and the password token; how far the browser
  steps get (any failing step before submission answers, cleans up and returns; a proxy
  407 also disables the proxy and clears the state; an exception outside the handlers
  propagates); and after submission what the detection loops find and what
  \<open>get_working_free_proxy\<close> returns.
\<close>

datatype progress = Crashed | StepFails | Proxy407 | Submitted

record attempt =
  access_ok :: bool
  first_name_pick :: nat
  last_name_pick :: nat
  token :: string
  progress :: progress
  duplicate_email_detected :: bool
  phone_required :: bool
  security_error :: bool
  puzzle_detected :: bool
  free_proxy :: "string option"

datatype result = NoObservation | Raised bot | Returned bot

definition FIRST_NAMES :: "string list" where
  "FIRST_NAMES = [''John'', ''Jane'', ''Alex'', ''Emma'', ''Michael'', ''Sarah'', ''David'', ''Lisa'']"

definition LAST_NAMES :: "string list" where
  "LAST_NAMES =
     [''Smith'', ''Johnson'', ''Williams'', ''Brown'', ''Jones'', ''Garcia'', ''Miller'', ''Davis'']"

text \<open>
  \<open>EMAIL_RE = ^[^@\s]+@[^@\s]+\.[^@\s]+$\<close> under \<open>re.match\<close>, with the ASCII
  white space of \<open>\s\<close>, and \<open>str.strip\<close>. \<open>$\<close> also matches before one
  final newline.
\<close>

definition is_space :: "char \<Rightarrow> bool" where
  "is_space c =
     (c \<in> set [CHR 0x09, CHR 0x0A, CHR 0x0B, CHR 0x0C, CHR 0x0D,
                CHR 0x1C, CHR 0x1D, CHR 0x1E, CHR 0x1F, CHR 0x20])"

definition strip :: "string \<Rightarrow> string" where
  "strip s = rev (dropWhile is_space (rev (dropWhile is_space s)))"

definition addr_chars :: "string \<Rightarrow> bool" where
  "addr_chars s = (s \<noteq> [] \<and> list_all (\<lambda>c. c \<noteq> CHR ''@'' \<and> \<not> is_space c) s)"

definition EMAIL_RE_match :: "string \<Rightarrow> bool" where
  "EMAIL_RE_match s =
     (let body = (if s \<noteq> [] \<and> last s = CHR 0x0A then butlast s else s);
          local = takeWhile (\<lambda>c. c \<noteq> CHR ''@'') body;
          rest = dropWhile (\<lambda>c. c \<noteq> CHR ''@'') body
      in rest \<noteq> [] \<and> addr_chars local \<and> addr_chars (tl rest) \<and>
         CHR ''.'' \<in> set (butlast (tl (tl rest))))"

text \<open>The state operations of the FSM context and the session table.\<close>

definition answer :: "notice \<Rightarrow> bot \<Rightarrow> bot" where
  "answer n b = b\<lparr>events := events b @ [Said n]\<rparr>"

definition state_clear :: "bot \<Rightarrow> bot" where
  "state_clear b = b\<lparr>fsm := None, fsm_data := no_data\<rparr>"

definition cleanup_session :: "bot \<Rightarrow> bot" where
  "cleanup_session b = b\<lparr>session_active := False\<rparr>"

definition truthy :: "string option \<Rightarrow> bool" where
  "truthy v = (case v of None \<Rightarrow> False | Some s \<Rightarrow> s \<noteq> [])"

text \<open>
  The name and password of a pass: taken from the FSM data when \<open>retry_with_proxy\<close>
  is set and both are stored and non-empty, generated otherwise.
\<close>

definition generated_credentials :: "attempt \<Rightarrow> string \<times> string" where
  "generated_credentials a =
     (FIRST_NAMES ! (first_name_pick a mod length FIRST_NAMES) @ '' '' @
        LAST_NAMES ! (last_name_pick a mod length LAST_NAMES),
      token a)"

definition credentials :: "flow_data \<Rightarrow> attempt \<Rightarrow> string \<times> string" where
  "credentials current_data a =
     (if d_retry_with_proxy current_data = Some True
      then (if \<not> truthy (d_full_name current_data) \<or> \<not> truthy (d_password current_data)
            then generated_credentials a
            else (case (d_full_name current_data, d_password current_data) of
                    (Some n, Some p) \<Rightarrow> (n, p)
                  | _ \<Rightarrow> generated_credentials a))
      else generated_credentials a)"

text \<open>
  The opening of the handler up to the launch of the browser: the name and password are
  stored with the email, the opening message is chosen, and the restart keys are set to
  \<open>None\<close> in the restart branch only.
\<close>

definition begin_attempt :: "string \<Rightarrow> attempt \<Rightarrow> bot \<Rightarrow> bot" where
  "begin_attempt email a b =
     (let current_data = fsm_data b;
          is_retry_with_proxy = (d_retry_with_proxy current_data = Some True);
          (full_name, password) = credentials current_data a;
          is_restart = (d_previous_email current_data \<noteq> None \<or>
                        d_restart_reason current_data \<noteq> None);
          b1 = b\<lparr>fsm_data := current_data\<lparr>d_email := Some email,
                  d_full_name := Some full_name, d_password := Some password\<rparr>\<rparr>;
          b2 = (if is_retry_with_proxy then answer RetryingWithProxy b1
                else if is_restart
                then answer RestartingAccountCreation
                       (b1\<lparr>fsm_data := (fsm_data b1)\<lparr>d_previous_email := Some None,
                                            d_restart_reason := Some None\<rparr>\<rparr>)
                else answer StartingAccountCreation b1)
      in b2\<lparr>events := events b2 @ [Launched (proxy_enabled b2) email full_name password]\<rparr>)"

definition proceed_to_otp :: "bot \<Rightarrow> bot" where
  "proceed_to_otp b = answer EnterVerificationCode (b\<lparr>fsm := Some waiting_for_otp\<rparr>)"

text \<open>\<open>current_data.get('puzzle_retry_count', 0)\<close>.\<close>

definition stored_retry_count :: "bot \<Rightarrow> int" where
  "stored_retry_count b =
     (case d_puzzle_retry_count (fsm_data b) of None \<Rightarrow> 0 | Some n \<Rightarrow> n)"

text \<open>
  The three outcomes of a detected puzzle. With \<open>retry_count >= 2\<close> the handler
  gives up: the proxy is disabled, the failure message sent, the session cleaned up and
  the state cleared. The first retry (count 0, proxy disabled, a free proxy found)
  enables the proxy, cleans up and stores \<open>retry_with_proxy\<close> and the incremented
  count; the second retry (count 1) takes another proxy when one is found, cleans up and
  stores the incremented count. Both then call \<open>got_email\<close> again.
\<close>

definition give_up :: "bot \<Rightarrow> bot" where
  "give_up b3 =
     state_clear (cleanup_session (answer PuzzlePersists (b3\<lparr>proxy_enabled := False\<rparr>)))"

definition first_retry :: "string \<Rightarrow> int \<Rightarrow> bot \<Rightarrow> bot" where
  "first_retry px retry_count b4 =
     (let b5 = cleanup_session (answer FreeProxyConfigured
                 (b4\<lparr>proxy_enabled := True, proxy_server := px\<rparr>))
      in b5\<lparr>fsm_data := (fsm_data b5)
              \<lparr>d_retry_with_proxy := Some True,
               d_puzzle_retry_count := Some (retry_count + 1)\<rparr>\<rparr>)"

definition second_retry :: "string option \<Rightarrow> int \<Rightarrow> bot \<Rightarrow> bot" where
  "second_retry found retry_count b4 =
     (let b5 = cleanup_session
                 (case found of
                    None \<Rightarrow> b4
                  | Some px \<Rightarrow> answer NewProxyConfigured (b4\<lparr>proxy_server := px\<rparr>))
      in b5\<lparr>fsm_data := (fsm_data b5)\<lparr>d_puzzle_retry_count := Some (retry_count + 1)\<rparr>\<rparr>)"

text \<open>
  \<open>got_email\<close> on the stripped text of a message. The handler calls itself after a
  puzzle detection, so the function recurses on the observations of the passes still to
  come; with none left the result is \<open>NoObservation\<close>. \<open>check_puzzle\<close> is the
  configuration constant \<open>CHECK_PUZZLE\<close>.
\<close>

fun got_email :: "bool \<Rightarrow> string \<Rightarrow> attempt list \<Rightarrow> bot \<Rightarrow> result" where
  "got_email check_puzzle text [] b = NoObservation"
| "got_email check_puzzle text (a # later) b =
     (let email = strip text in
      if \<not> access_ok a then Returned (state_clear b)
      else if \<not> EMAIL_RE_match email then Returned (answer InvalidEmail b)
      else if session_active b then Returned (answer ActiveSessionDetected b)
      else
        (let b2 = begin_attempt email a b in
         case progress a of
           Crashed \<Rightarrow> Raised b2
         | StepFails \<Rightarrow> Returned (cleanup_session (answer StepFailed b2))
         | Proxy407 \<Rightarrow>
             Returned (state_clear (cleanup_session
               (answer ProxyAuthenticationError (b2\<lparr>proxy_enabled := False\<rparr>))))
         | Submitted \<Rightarrow>
             (let b3 = b2\<lparr>session_active := True\<rparr> in
              if duplicate_email_detected a
              then Returned
                ((cleanup_session
                   ((answer EmailAlreadyUsed b3)
                      \<lparr>fsm_data := (fsm_data b3)
                         \<lparr>d_previous_email := Some (Some email),
                          d_restart_reason := Some (Some ''duplicate_email''),
                          d_original_full_name := d_full_name (fsm_data b3),
                          d_original_password := d_password (fsm_data b3)\<rparr>\<rparr>))
                 \<lparr>fsm := Some waiting_for_email\<rparr>)
              else if \<not> check_puzzle then Returned (proceed_to_otp b3)
              else if phone_required a
              then Returned (state_clear (cleanup_session (answer PhoneVerificationRequired b3)))
              else if security_error a
              then Returned (state_clear (cleanup_session (answer SecurityBlock b3)))
              else if \<not> puzzle_detected a then Returned (proceed_to_otp b3)
              else
                (let retry_count = stored_retry_count b3
                 in if retry_count \<ge> 2 then Returned (give_up b3)
                    else if retry_count = 0 \<and> \<not> proxy_enabled b3
                    then
                      (let b4 = answer PuzzleActivatingFreeProxy b3 in
                       case free_proxy a of
                         None \<Rightarrow> Returned (state_clear (cleanup_session (answer NoFreeProxy b4)))
                       | Some px \<Rightarrow>
                           got_email check_puzzle text later (first_retry px retry_count b4))
                    else if retry_count = 1
                    then got_email check_puzzle text later
                           (second_retry (free_proxy a) retry_count
                              (answer PuzzleTryingOtherProxy b3))
                    else Returned (proceed_to_otp b3)))))"

text \<open>The browser launches among the events: the first pass and every retry.\<close>

definition is_launch :: "event \<Rightarrow> bool" where
  "is_launch e = (case e of Launched _ _ _ _ \<Rightarrow> True | Said _ \<Rightarrow> False)"

definition launches :: "bot \<Rightarrow> nat" where
  "launches b = length (filter is_launch (events b))"

definition bot_of :: "result \<Rightarrow> bot option" where
  "bot_of r = (case r of NoObservation \<Rightarrow> None | Raised b \<Rightarrow> Some b | Returned b \<Rightarrow> Some b)"

text \<open>A chat right after \<open>/start\<close>, and passes that reach the detection checks.\<close>

definition started_bot :: bot where
  "started_bot =
     \<lparr>fsm = Some waiting_for_email, fsm_data = no_data, proxy_enabled = False,
      proxy_server = [], session_active = False, events = []\<rparr>"

definition clean_pass :: "nat \<Rightarrow> nat \<Rightarrow> string \<Rightarrow> attempt" where
  "clean_pass i j tok =
     \<lparr>access_ok = True, first_name_pick = i, last_name_pick = j, token = tok,
      progress = Submitted, duplicate_email_detected = False, phone_required = False,
      security_error = False, puzzle_detected = False, free_proxy = None\<rparr>"

definition puzzle_pass :: "nat \<Rightarrow> nat \<Rightarrow> string \<Rightarrow> string \<Rightarrow> attempt" where
  "puzzle_pass i j tok px = (clean_pass i j tok)\<lparr>puzzle_detected := True, free_proxy := Some px\<rparr>"

definition duplicate_pass :: "nat \<Rightarrow> nat \<Rightarrow> string \<Rightarrow> attempt" where
  "duplicate_pass i j tok = (clean_pass i j tok)\<lparr>duplicate_email_detected := True\<rparr>"

text \<open>
  A pass on which the user has access, the form is submitted, no duplicate email, phone
  demand or security block is found, and the puzzle is detected.
\<close>

definition reaches_puzzle :: "attempt \<Rightarrow> bool" where
  "reaches_puzzle a =
     (access_ok a \<and> progress a = Submitted \<and> \<not> duplicate_email_detected a \<and>
      \<not> phone_required a \<and> \<not> security_error a \<and> puzzle_detected a)"

text \<open>
  The passes a call of \<open>got_email\<close> can still make, by the stored retry count: the
  pass at hand and one more for each retry left.
\<close>

definition passes_left :: "bot \<Rightarrow> nat" where
  "passes_left b =
     (if stored_retry_count b = 0 then 3 else if stored_retry_count b = 1 then 2 else 1)"

section \<open>Profile generator (generate\_ultimate\_stealth\_profile)\<close>

text \<open>\<open>d[k] = v\<close> and \<open>d.update(new)\<close> on an insertion-ordered dictionary.\<close>

fun dict_set :: "pydict \<Rightarrow> string \<Rightarrow> pyval \<Rightarrow> pydict" where
  "dict_set [] k v = [(k, v)]"
| "dict_set ((k', v') # d) k v =
     (if k' = k then (k, v) # d else (k', v') # dict_set d k v)"

definition dict_update :: "pydict \<Rightarrow> pydict \<Rightarrow> pydict" where
  "dict_update d new = foldl (\<lambda>acc (k, v). dict_set acc k v) d new"

definition size_dict :: "int \<Rightarrow> int \<Rightarrow> pyval" where
  "size_dict w h = VDict [(''width'', VInt w), (''height'', VInt h)]"

definition generate_random_chrome_version :: "rng \<Rightarrow> string \<times> rng" where
  "generate_random_chrome_version r0 =
     (let (major, r1) = random_randint 119 122 r0;
          (minor, r2) = random_randint 0 99 r1;
          (build, r3) = random_randint 1000 9999 r2;
          (patch, r4) = random_randint 100 999 r3
      in (str_int major @ ''.'' @ str_int minor @ ''.'' @ str_int build @ ''.'' @ str_int patch,
          r4))"

subsection \<open>Windows\<close>

definition windows_chrome_gpu_options :: "(string \<times> string) list" where
  "windows_chrome_gpu_options =
     [(''Google Inc. (NVIDIA)'', ''ANGLE (NVIDIA, NVIDIA GeForce RTX 3060 Direct3D11 vs_5_0 ps_5_0)''),
      (''Google Inc. (NVIDIA)'', ''ANGLE (NVIDIA, NVIDIA GeForce RTX 4060 Direct3D11 vs_5_0 ps_5_0)''),
      (''Google Inc. (NVIDIA)'', ''ANGLE (NVIDIA, NVIDIA GeForce GTX 1660 Direct3D11 vs_5_0 ps_5_0)''),
      (''Google Inc. (AMD)'', ''ANGLE (AMD, AMD Radeon RX 580 Direct3D11 vs_5_0 ps_5_0)''),
      (''Google Inc. (AMD)'', ''ANGLE (AMD, AMD Radeon RX 6600 Direct3D11 vs_5_0 ps_5_0)''),
      (''Google Inc. (Intel)'', ''ANGLE (Intel, Intel(R) UHD Graphics 630 Direct3D11 vs_5_0 ps_5_0)''),
      (''Google Inc. (Intel)'', ''ANGLE (Intel, Intel(R) Iris Xe Graphics Direct3D11 vs_5_0 ps_5_0)'')]"

definition windows_firefox_renderers :: "string list" where
  "windows_firefox_renderers =
     [''NVIDIA GeForce RTX 3060/PCIe/SSE2'', ''NVIDIA GeForce GTX 1660/PCIe/SSE2'',
      ''AMD Radeon RX 580 Series'', ''Intel(R) UHD Graphics 630'']"

definition windows_edge_gpu_options :: "(string \<times> string) list" where
  "windows_edge_gpu_options =
     [(''Google Inc. (Microsoft)'', ''ANGLE (NVIDIA, NVIDIA GeForce RTX 3060 Direct3D11 vs_5_0 ps_5_0, D3D11)''),
      (''Google Inc. (Microsoft)'', ''ANGLE (NVIDIA, NVIDIA GeForce GTX 1660 Direct3D11 vs_5_0 ps_5_0, D3D11)''),
      (''Google Inc. (Microsoft)'', ''ANGLE (AMD, AMD Radeon RX 580 Direct3D11 vs_5_0 ps_5_0, D3D11)''),
      (''Google Inc. (Microsoft)'', ''ANGLE (Intel, Intel(R) UHD Graphics 630 Direct3D11 vs_5_0 ps_5_0, D3D11)'')]"

definition windows_screen_viewport_options :: "(pyval \<times> pyval) list" where
  "windows_screen_viewport_options =
     [(size_dict 1920 1080, size_dict 1920 1080),
      (size_dict 1920 1080, size_dict 1536 864),
      (size_dict 1366 768, size_dict 1366 768),
      (size_dict 1366 768, size_dict 1280 720),
      (size_dict 1536 864, size_dict 1536 864),
      (size_dict 1536 864, size_dict 1366 768)]"

text \<open>
  The \<open>if\<close>/\<open>elif\<close>/\<open>else\<close> over \<open>browser_choice\<close>, which sets
  \<open>user_agent\<close>, \<open>webgl_vendor\<close> and \<open>webgl_renderer\<close>; the option lists are
  the local lists of each branch. The same holds for the other two generators.
\<close>

definition windows_browser :: "string \<Rightarrow> string \<Rightarrow> rng \<Rightarrow> (string \<times> string \<times> string) \<times> rng" where
  "windows_browser win_version browser_choice r0 =
     (if browser_choice = ''chrome'' then
        (let (chrome_version, r1) = generate_random_chrome_version r0;
             ((webgl_vendor, webgl_renderer), r2) = random_choice windows_chrome_gpu_options r1
         in ((''Mozilla/5.0 (Windows NT '' @ win_version @
                ''; Win64; x64) AppleWebKit/537.36 (KHTML, like Gecko) Chrome/'' @
                chrome_version @ '' Safari/537.36'',
              webgl_vendor, webgl_renderer), r2))
      else if browser_choice = ''firefox'' then
        (let (v, r1) = random_randint 115 120 r0;
             firefox_version = str_int v @ ''.0'';
             (webgl_renderer, r2) = random_choice windows_firefox_renderers r1
         in ((''Mozilla/5.0 (Windows NT '' @ win_version @ ''; Win64; x64; rv:'' @
                firefox_version @ '') Gecko/20100101 Firefox/'' @ firefox_version,
              ''Mozilla'', webgl_renderer), r2))
      else
        (let (a, r1) = random_randint 115 120 r0;
             (b, r2) = random_randint 1800 1900 r1;
             (c, r3) = random_randint 60 99 r2;
             edge_version = str_int a @ ''.0.'' @ str_int b @ ''.'' @ str_int c;
             ((webgl_vendor, webgl_renderer), r4) = random_choice windows_edge_gpu_options r3
         in ((''Mozilla/5.0 (Windows NT '' @ win_version @
                ''; Win64; x64) AppleWebKit/537.36 (KHTML, like Gecko) Chrome/'' @
                edge_version @ '' Safari/537.36 Edg/'' @ edge_version,
              webgl_vendor, webgl_renderer), r4)))"

definition generate_windows_profile :: "rng \<Rightarrow> pydict \<times> rng" where
  "generate_windows_profile r0 =
     (let (win_version, r1) = random_choice [''10.0'', ''11.0''] r0;
          (browser_choice, r2) = random_choices [''chrome'', ''firefox'', ''edge''] r1;
          ((user_agent, webgl_vendor, webgl_renderer), r3) =
             windows_browser win_version browser_choice r2;
          ((screen_size, viewport_size), r4) = random_choice windows_screen_viewport_options r3;
          (device_scale_factor, r5) = random_choice [''1.0'', ''1.25'', ''1.5''] r4;
          (hardware_concurrency, r6) = random_randint 4 16 r5;
          (device_memory, r7) = random_choice [4, 8, 16, 32] r6
      in ([(''type'', VStr ''desktop''),
           (''os'', VStr ''Windows''),
           (''browser'', VStr browser_choice),
           (''user_agent'', VStr user_agent),
           (''webgl_vendor'', VStr webgl_vendor),
           (''webgl_renderer'', VStr webgl_renderer),
           (''viewport'', viewport_size),
           (''screen'', screen_size),
           (''device_scale_factor'', VFloat device_scale_factor),
           (''hardware_concurrency'', VInt hardware_concurrency),
           (''device_memory'', VInt device_memory),
           (''max_touch_points'', VInt 0),
           (''platform'', VStr ''Win32'')], r7))"

subsection \<open>macOS\<close>

definition macos_safari_renderers :: "string list" where
  "macos_safari_renderers =
     [''Apple M1'', ''Apple M1 Pro'', ''Apple M2'', ''Apple GPU'',
      ''AMD Radeon Pro 5500M OpenGL Engine'', ''Intel(R) Iris(TM) Plus Graphics OpenGL Engine'']"

definition macos_chrome_renderers :: "string list" where
  "macos_chrome_renderers =
     [''ANGLE (Apple, ANGLE Metal Renderer: Apple M1, Unspecified Version)'',
      ''ANGLE (Apple, ANGLE Metal Renderer: Apple M2, Unspecified Version)'',
      ''ANGLE (Apple, AMD Radeon Pro 5500M, OpenGL 4.1)'',
      ''ANGLE (Apple, Intel(R) Iris(TM) Plus Graphics, OpenGL 4.1)'']"

definition macos_firefox_renderers :: "string list" where
  "macos_firefox_renderers =
     [''Apple M1'', ''Apple M2'', ''AMD Radeon Pro 5500M OpenGL Engine'',
      ''Intel(R) Iris(TM) Plus Graphics OpenGL Engine'']"

definition macos_screen_viewport_options :: "(pyval \<times> pyval) list" where
  "macos_screen_viewport_options =
     [(size_dict 1440 900, size_dict 1440 900),
      (size_dict 1440 900, size_dict 1280 800),
      (size_dict 1680 1050, size_dict 1680 1050),
      (size_dict 1680 1050, size_dict 1440 900),
      (size_dict 1920 1200, size_dict 1920 1200),
      (size_dict 1920 1200, size_dict 1680 1050)]"

definition macos_browser :: "string \<Rightarrow> string \<Rightarrow> rng \<Rightarrow> (string \<times> string \<times> string) \<times> rng" where
  "macos_browser mac_version browser_choice r0 =
     (if browser_choice = ''safari'' then
        (let (s1, r1) = random_randint 16 17 r0;
             (s2, r2) = random_randint 0 5 r1;
             safari_version = str_int s1 @ ''.'' @ str_int s2;
             (w1, r3) = random_randint 605 618 r2;
             (w2, r4) = random_randint 1 3 r3;
             (w3, r5) = random_randint 10 20 r4;
             webkit_version = str_int w1 @ ''.'' @ str_int w2 @ ''.'' @ str_int w3;
             (webgl_renderer, r6) = random_choice macos_safari_renderers r5
         in ((''Mozilla/5.0 (Macintosh; Intel Mac OS X '' @ mac_version @ '') AppleWebKit/'' @
                webkit_version @ '' (KHTML, like Gecko) Version/'' @ safari_version @
                '' Safari/'' @ webkit_version,
              ''Apple Inc.'', webgl_renderer), r6))
      else if browser_choice = ''chrome'' then
        (let (chrome_version, r1) = generate_random_chrome_version r0;
             (webgl_renderer, r2) = random_choice macos_chrome_renderers r1
         in ((''Mozilla/5.0 (Macintosh; Intel Mac OS X '' @ mac_version @
                '') AppleWebKit/537.36 (KHTML, like Gecko) Chrome/'' @ chrome_version @
                '' Safari/537.36'',
              ''Google Inc. (Apple)'', webgl_renderer), r2))
      else
        (let (v, r1) = random_randint 115 120 r0;
             firefox_version = str_int v @ ''.0'';
             (webgl_renderer, r2) = random_choice macos_firefox_renderers r1
         in ((''Mozilla/5.0 (Macintosh; Intel Mac OS X '' @ mac_version @
                '') Gecko/20100101 Firefox/'' @ firefox_version,
              ''Mozilla'', webgl_renderer), r2)))"

definition generate_macos_profile :: "rng \<Rightarrow> pydict \<times> rng" where
  "generate_macos_profile r0 =
     (let (mac_version, r1) =
            random_choice [''10_15_7'', ''11_7_10'', ''12_6_8'', ''13_5_2'', ''14_0''] r0;
          (browser_choice, r2) = random_choices [''safari'', ''chrome'', ''firefox''] r1;
          ((user_agent, webgl_vendor, webgl_renderer), r3) =
             macos_browser mac_version browser_choice r2;
          ((screen_size, viewport_size), r4) = random_choice macos_screen_viewport_options r3;
          (device_scale_factor, r5) = random_choice [''1.0'', ''2.0''] r4;
          (hardware_concurrency, r6) = random_randint 4 12 r5;
          (device_memory, r7) = random_choice [8, 16, 32] r6
      in ([(''type'', VStr ''desktop''),
           (''os'', VStr ''macOS''),
           (''browser'', VStr browser_choice),
           (''user_agent'', VStr user_agent),
           (''webgl_vendor'', VStr webgl_vendor),
           (''webgl_renderer'', VStr webgl_renderer),
           (''viewport'', viewport_size),
           (''screen'', screen_size),
           (''device_scale_factor'', VFloat device_scale_factor),
           (''hardware_concurrency'', VInt hardware_concurrency),
           (''device_memory'', VInt device_memory),
           (''max_touch_points'', VInt 0),
           (''platform'', VStr ''MacIntel'')], r7))"

subsection \<open>Linux\<close>

definition linux_firefox_renderers :: "string list" where
  "linux_firefox_renderers =
     [''NVIDIA GeForce RTX 3060/PCIe/SSE2'',
      ''NVIDIA GeForce RTX 3060/PCIe/SSE2'',
      ''NVIDIA GeForce RTX 3070/PCIe/SSE2'',
      ''NVIDIA GeForce GTX 1660/PCIe/SSE2'',
      ''AMD Radeon RX 580 Series (POLARIS10, DRM 3.42.0, 5.15.0-91-generic, LLVM 15.0.7)'',
      ''Intel(R) UHD Graphics 630 (CFL GT2)'',
      ''Mesa DRI Intel(R) UHD Graphics 630 (CFL GT2)'']"

definition linux_chrome_gpu_options :: "(string \<times> string) list" where
  "linux_chrome_gpu_options =
     [(''Google Inc. (NVIDIA)'', ''ANGLE (NVIDIA, NVIDIA GeForce RTX 3060/PCIe/SSE2, OpenGL 4.5.0)''),
      (''Google Inc. (NVIDIA)'', ''ANGLE (NVIDIA, NVIDIA GeForce GTX 1660/PCIe/SSE2, OpenGL 4.6.0)''),
      (''Google Inc. (AMD)'', ''ANGLE (AMD, AMD Radeon RX 580 Series (POLARIS10, DRM 3.42.0), OpenGL 4.6.0)''),
      (''Google Inc. (Intel)'', ''ANGLE (Intel, Mesa DRI Intel(R) UHD Graphics 630, OpenGL 4.6.0)''),
      (''Google Inc. (Intel)'', ''ANGLE (Intel, Mesa DRI Intel(R) Iris Xe Graphics, OpenGL 4.6.0)'')]"

definition linux_chromium_gpu_options :: "(string \<times> string) list" where
  "linux_chromium_gpu_options =
     [(''Google Inc. (NVIDIA)'', ''NVIDIA GeForce RTX 3060/PCIe/SSE2''),
      (''Google Inc. (NVIDIA)'', ''NVIDIA GeForce GTX 1660/PCIe/SSE2''),
      (''Google Inc. (AMD)'', ''AMD Radeon RX 580 Series (POLARIS10, DRM 3.42.0)''),
      (''Google Inc. (Intel)'', ''Mesa DRI Intel(R) UHD Graphics 630 (CFL GT2)''),
      (''Google Inc. (Intel)'', ''Mesa DRI Intel(R) Iris Xe Graphics'')]"

definition linux_screen_viewport_options :: "(pyval \<times> pyval) list" where
  "linux_screen_viewport_options =
     [(size_dict 1920 1080, size_dict 1920 1080),
      (size_dict 1920 1080, size_dict 1600 900),
      (size_dict 1920 1080, size_dict 1366 768),
      (size_dict 1600 900, size_dict 1600 900),
      (size_dict 1600 900, size_dict 1366 768),
      (size_dict 1366 768, size_dict 1366 768),
      (size_dict 1366 768, size_dict 1280 720)]"

definition linux_browser :: "string \<Rightarrow> rng \<Rightarrow> (string \<times> string \<times> string) \<times> rng" where
  "linux_browser browser_choice r0 =
     (if browser_choice = ''firefox'' then
        (let (v, r1) = random_randint 115 120 r0;
             firefox_version = str_int v @ ''.0'';
             (webgl_renderer, r2) = random_choice linux_firefox_renderers r1
         in ((''Mozilla/5.0 (X11; Linux x86_64; rv:'' @ firefox_version @
                '') Gecko/20100101 Firefox/'' @ firefox_version,
              ''Mozilla'', webgl_renderer), r2))
      else if browser_choice = ''chrome'' then
        (let (chrome_version, r1) = generate_random_chrome_version r0;
             ((webgl_vendor, webgl_renderer), r2) = random_choice linux_chrome_gpu_options r1
         in ((''Mozilla/5.0 (X11; Linux x86_64) AppleWebKit/537.36 (KHTML, like Gecko) Chrome/'' @
                chrome_version @ '' Safari/537.36'',
              webgl_vendor, webgl_renderer), r2))
      else
        (let (a, r1) = random_randint 115 120 r0;
             (b, r2) = random_randint 5700 5900 r1;
             (c, r3) = random_randint 100 200 r2;
             chromium_version = str_int a @ ''.0.'' @ str_int b @ ''.'' @ str_int c;
             ((webgl_vendor, webgl_renderer), r4) = random_choice linux_chromium_gpu_options r3
         in ((''Mozilla/5.0 (X11; Linux x86_64) AppleWebKit/537.36 (KHTML, like Gecko) Chrome/'' @
                chromium_version @ '' Safari/537.36'',
              webgl_vendor, webgl_renderer), r4)))"

definition generate_linux_profile :: "rng \<Rightarrow> pydict \<times> rng" where
  "generate_linux_profile r0 =
     (let (browser_choice, r1) = random_choices [''firefox'', ''chrome'', ''chromium''] r0;
          ((user_agent, webgl_vendor, webgl_renderer), r2) = linux_browser browser_choice r1;
          ((screen_size, viewport_size), r3) = random_choice linux_screen_viewport_options r2;
          (device_scale_factor, r4) = random_choice [''1.0'', ''1.25''] r3;
          (hardware_concurrency, r5) = random_randint 2 16 r4;
          (device_memory, r6) = random_choice [4, 8, 16] r5
      in ([(''type'', VStr ''desktop''),
           (''os'', VStr ''Linux''),
           (''browser'', VStr browser_choice),
           (''user_agent'', VStr user_agent),
           (''webgl_vendor'', VStr webgl_vendor),
           (''webgl_renderer'', VStr webgl_renderer),
           (''viewport'', viewport_size),
           (''screen'', screen_size),
           (''device_scale_factor'', VFloat device_scale_factor),
           (''hardware_concurrency'', VInt hardware_concurrency),
           (''device_memory'', VInt device_memory),
           (''max_touch_points'', VInt 0),
           (''platform'', VStr ''Linux x86_64'')], r6))"

subsection \<open>Location and the complete profile\<close>

text \<open>
  The location table, one tuple per dictionary literal: timezone, locale, latitude,
  longitude, city.
\<close>

definition locations :: "(string \<times> string \<times> string \<times> string \<times> string) list" where
  "locations =
     [(''America/New_York'', ''en-US'', ''40.7589'', ''-73.9851'', ''New York''),
      (''America/Los_Angeles'', ''en-US'', ''34.0522'', ''-118.2437'', ''Los Angeles''),
      (''America/Chicago'', ''en-US'', ''41.8781'', ''-87.6298'', ''Chicago''),
      (''America/Phoenix'', ''en-US'', ''33.4484'', ''-112.074'', ''Phoenix''),
      (''America/Denver'', ''en-US'', ''39.7392'', ''-104.9903'', ''Denver''),
      (''America/Toronto'', ''en-CA'', ''43.6532'', ''-79.3832'', ''Toronto''),
      (''America/Vancouver'', ''en-CA'', ''49.2827'', ''-123.1207'', ''Vancouver''),
      (''Europe/London'', ''en-GB'', ''51.5074'', ''-0.1278'', ''London''),
      (''Europe/London'', ''en-GB'', ''53.4808'', ''-2.2426'', ''Manchester''),
      (''Australia/Sydney'', ''en-AU'', ''-33.8688'', ''151.2093'', ''Sydney''),
      (''Australia/Melbourne'', ''en-AU'', ''-37.8136'', ''144.9631'', ''Melbourne'')]"

definition generate_random_location ::
  "rng \<Rightarrow> (string \<times> string \<times> string \<times> string \<times> string) \<times> rng" where
  "generate_random_location r = random_choice locations r"

datatype device_generator = Windows_generator | Macos_generator | Linux_generator

definition run_generator :: "device_generator \<Rightarrow> rng \<Rightarrow> pydict \<times> rng" where
  "run_generator g r =
     (case g of
        Windows_generator \<Rightarrow> generate_windows_profile r
      | Macos_generator \<Rightarrow> generate_macos_profile r
      | Linux_generator \<Rightarrow> generate_linux_profile r)"

text \<open>
  The weighted selection loop, with the weights in hundredths: the first generator whose
  cumulative weight reaches \<open>rand_val\<close>; \<open>None\<close> is the loop's \<open>else\<close> branch.
\<close>

fun select_generator :: "nat \<Rightarrow> nat \<Rightarrow> (device_generator \<times> nat) list \<Rightarrow> device_generator option" where
  "select_generator rand_val cumulative_weight [] = None"
| "select_generator rand_val cumulative_weight ((generator, weight) # rest) =
     (if rand_val \<le> cumulative_weight + weight then Some generator
      else select_generator rand_val (cumulative_weight + weight) rest)"

definition device_generators :: "(device_generator \<times> nat) list" where
  "device_generators = [(Windows_generator, 45), (Macos_generator, 30), (Linux_generator, 25)]"

definition generate_ultimate_stealth_profile :: "rng \<Rightarrow> pydict \<times> rng" where
  "generate_ultimate_stealth_profile r0 =
     (let (rand_val, r1) = random_random r0;
          (profile, r2) =
             (case select_generator rand_val 0 device_generators of
                Some generator \<Rightarrow> run_generator generator r1
              | None \<Rightarrow> generate_windows_profile r1);
          ((timezone, locale, latitude, longitude, city), r3) = generate_random_location r2;
          profile1 = dict_update profile
             [(''timezone'', VStr timezone),
              (''locale'', VStr locale),
              (''geolocation'',
                 VDict [(''latitude'', VFloat latitude), (''longitude'', VFloat longitude)]),
              (''city'', VStr city)];
          (connection_type, r4) = random_choice [''4g'', ''wifi'', ''ethernet''] r3;
          (connection_rtt, r5) = random_randint 20 150 r4;
          (connection_downlink, r6) = random_uniform_tenths 10 500 r5;
          (plugins, r7) = random_randint 2 5 r6
      in (dict_update profile1
            [(''connection_type'', VStr connection_type),
             (''connection_rtt'', VInt connection_rtt),
             (''connection_downlink'', VFloat connection_downlink),
             (''plugins'', VInt plugins)], r7))"

subsection \<open>Consistency of a profile\<close>

text \<open>
  The WebGL strings fit the browser family and the operating system. Firefox reports
  the vendor \<open>Mozilla\<close> and the driver's own renderer string, never an ANGLE string.
  Safari, a macOS browser, reports the vendor \<open>Apple Inc.\<close> and no ANGLE string.
  The Chromium family (Chrome, Edge, Chromium) reports through ANGLE: the vendor is
  \<open>Google Inc. (...)\<close> and the renderer is \<open>ANGLE (...)\<close>. No other browser
  is known. Direct3D renderers occur on Windows only, and every ANGLE renderer on
  Windows is a Direct3D11 one.
\<close>

definition webgl_family_ok :: "string \<Rightarrow> string \<Rightarrow> string \<Rightarrow> string \<Rightarrow> bool" where
  "webgl_family_ok os browser vendor renderer =
     ((if browser = ''firefox''
       then vendor = ''Mozilla'' \<and> \<not> prefix ''ANGLE'' renderer
       else if browser = ''safari''
       then os = ''macOS'' \<and> vendor = ''Apple Inc.'' \<and> \<not> prefix ''ANGLE'' renderer
       else (browser = ''chrome'' \<or> browser = ''edge'' \<or> browser = ''chromium'') \<and>
            prefix ''Google Inc. ('' vendor \<and> prefix ''ANGLE ('' renderer) \<and>
      (if os = ''Windows''
       then (if prefix ''ANGLE'' renderer then sublist ''Direct3D11'' renderer else True)
       else \<not> sublist ''Direct3D'' renderer))"

definition dimension :: "pyval \<Rightarrow> string \<Rightarrow> int option" where
  "dimension v k =
     (case v of
        VDict d \<Rightarrow> (case map_of d k of Some (VInt n) \<Rightarrow> Some n | _ \<Rightarrow> None)
      | _ \<Rightarrow> None)"

definition viewport_fits :: "pyval \<Rightarrow> pyval \<Rightarrow> bool" where
  "viewport_fits viewport screen =
     (case (dimension viewport ''width'', dimension screen ''width'',
            dimension viewport ''height'', dimension screen ''height'') of
        (Some vw, Some sw, Some vh, Some sh) \<Rightarrow> vw \<le> sw \<and> vh \<le> sh
      | _ \<Rightarrow> False)"

definition text_field :: "pydict \<Rightarrow> string \<Rightarrow> string option" where
  "text_field p k = (case map_of p k of Some (VStr s) \<Rightarrow> Some s | _ \<Rightarrow> None)"

definition webgl_consistent :: "pydict \<Rightarrow> bool" where
  "webgl_consistent p =
     (case (text_field p ''os'', text_field p ''browser'',
            text_field p ''webgl_vendor'', text_field p ''webgl_renderer'') of
        (Some os, Some browser, Some vendor, Some renderer) \<Rightarrow>
          webgl_family_ok os browser vendor renderer
      | _ \<Rightarrow> False)"

definition viewport_consistent :: "pydict \<Rightarrow> bool" where
  "viewport_consistent p =
     (case (map_of p ''viewport'', map_of p ''screen'') of
        (Some viewport, Some screen) \<Rightarrow> viewport_fits viewport screen
      | _ \<Rightarrow> False)"

definition profile_consistent :: "pydict \<Rightarrow> bool" where
  "profile_consistent p = (webgl_consistent p \<and> viewport_consistent p)"

section \<open>Properties of the learning store\<close>

lemma bump_existing_None:
  "(bump_existing sel now es = None) = (sel \<notin> selector ` set es)"
  by (induction es) auto

lemma bump_existing_selectors:
  "bump_existing sel now es = Some es' \<Longrightarrow> map selector es' = map selector es"
  by (induction es arbitrary: es') (auto split: if_splits)

lemma bump_existing_fresh_tail:
  "sel \<notin> selector ` set es \<Longrightarrow>
   bump_existing sel now (es @ [e\<lparr>selector := sel\<rparr>]) =
     Some (es @ [e\<lparr>selector := sel, success_count := success_count e + 1,
                   last_success := Some now\<rparr>])"
  by (induction es) auto

lemma entries_of_upd:
  "entries_of (st(c \<mapsto> es)) c' = (if c' = c then es else entries_of st c')"
  by (simp add: entries_of_def)

lemma add_selector_fresh:
  assumes "sel \<notin> selector ` set (entries_of (learned_selectors l) c)"
  shows "learned_selectors (snd (add_selector c sel ctx n0 n1 l)) =
           (learned_selectors l)(c \<mapsto> entries_of (learned_selectors l) c @
              [\<lparr>selector = sel, context_note = ctx, learned_at = n0, success_count = 1, last_success = None\<rparr>])"
proof -
  have "bump_existing sel n1 (entries_of (learned_selectors l) c) = None"
    using assms by (simp add: bump_existing_None)
  then show ?thesis
    by (simp add: add_selector_def save_learned_selectors_def Let_def)
qed

lemma add_selector_file:
  "file_writable l \<Longrightarrow>
     fst (add_selector c sel ctx n0 n1 l) = None \<and>
     selectors_file (snd (add_selector c sel ctx n0 n1 l)) =
       Json (learned_selectors (snd (add_selector c sel ctx n0 n1 l))) \<and>
     file_writable (snd (add_selector c sel ctx n0 n1 l))"
  by (simp add: add_selector_def save_learned_selectors_def Let_def)

lemma add_selector_keeps_distinct:
  "distinct (map selector (entries_of (learned_selectors l) c')) \<Longrightarrow>
   distinct (map selector (entries_of (learned_selectors (snd (add_selector c sel ctx n0 n1 l))) c'))"
proof (cases "bump_existing sel n1 (entries_of (learned_selectors l) c)")
  case None
  then have "sel \<notin> selector ` set (entries_of (learned_selectors l) c)"
    by (simp add: bump_existing_None)
  moreover assume "distinct (map selector (entries_of (learned_selectors l) c'))"
  ultimately show ?thesis using None
    by (auto simp: add_selector_def save_learned_selectors_def Let_def entries_of_upd)
next
  case (Some es')
  moreover assume "distinct (map selector (entries_of (learned_selectors l) c'))"
  ultimately show ?thesis using bump_existing_selectors[OF Some]
    by (auto simp: add_selector_def save_learned_selectors_def Let_def entries_of_upd)
qed

lemma record_twice_fresh_case:
  assumes fresh: "sel \<notin> selector ` set (entries_of (learned_selectors l) c)"
    and l1: "l1 = snd (add_selector c sel ctx n0 n1 l)"
    and l2: "l2 = snd (add_selector c sel ctx' m0 m1 l1)"
  shows "filter (\<lambda>e. selector e = sel) (entries_of (learned_selectors l2) c) =
           [\<lparr>selector = sel, context_note = ctx, learned_at = n0, success_count = 2,
             last_success = Some m1\<rparr>] \<and>
         entries_of (learned_selectors l2) c = entries_of (learned_selectors l) c @
           [\<lparr>selector = sel, context_note = ctx, learned_at = n0, success_count = 2,
             last_success = Some m1\<rparr>] \<and>
         (\<forall>c'. c' \<noteq> c \<longrightarrow> learned_selectors l2 c' = learned_selectors l c')"
proof -
  let ?es = "entries_of (learned_selectors l) c"
  let ?e = "\<lparr>selector = sel, context_note = ctx, learned_at = n0, success_count = 1, last_success = None\<rparr>"
  let ?e2 = "\<lparr>selector = sel, context_note = ctx, learned_at = n0, success_count = 2,
             last_success = Some m1\<rparr>"
  have s1: "learned_selectors l1 = (learned_selectors l)(c \<mapsto> ?es @ [?e])"
    unfolding l1 by (rule add_selector_fresh[OF fresh])
  have e1: "entries_of (learned_selectors l1) c = ?es @ [?e]"
    by (simp add: s1 entries_of_upd)
  have b: "bump_existing sel m1 (?es @ [?e]) = Some (?es @ [?e2])"
    using bump_existing_fresh_tail[OF fresh, of m1 ?e] by simp
  have s2: "learned_selectors l2 = (learned_selectors l1)(c \<mapsto> ?es @ [?e2])"
    unfolding l2 by (simp add: add_selector_def save_learned_selectors_def Let_def e1 b)
  have e2: "entries_of (learned_selectors l2) c = ?es @ [?e2]"
    by (simp add: s2 entries_of_upd)
  have nofilter: "filter (\<lambda>e. selector e = sel) ?es = []"
    using fresh by (auto simp: filter_empty_conv)
  have other: "\<forall>c'. c' \<noteq> c \<longrightarrow> learned_selectors l2 c' = learned_selectors l c'"
    by (simp add: s1 s2)
  have flt: "filter (\<lambda>e. selector e = sel) (entries_of (learned_selectors l2) c) = [?e2]"
    by (simp add: e2 nofilter)
  from flt e2 other show ?thesis by (intro conjI)
qed

lemma bump_existing_split:
  "sel \<notin> selector ` set pre \<Longrightarrow> selector e = sel \<Longrightarrow>
   bump_existing sel now (pre @ e # post) =
     Some (pre @ e\<lparr>success_count := success_count e + 1, last_success := Some now\<rparr> # post)"
  by (induction pre) auto

lemma add_selector_existing:
  assumes "entries_of (learned_selectors l) c = pre @ e # post"
    and "selector e = sel" and "sel \<notin> selector ` set pre"
  shows "learned_selectors (snd (add_selector c sel ctx n0 n1 l)) =
           (learned_selectors l)(c \<mapsto>
              pre @ e\<lparr>success_count := success_count e + 1, last_success := Some n1\<rparr> # post)"
  using assms bump_existing_split[OF assms(3) assms(2), of n1 post]
  by (simp add: add_selector_def save_learned_selectors_def Let_def)

lemma record_twice_existing_case:
  assumes split: "entries_of (learned_selectors l) c = pre @ e # post"
    and e: "selector e = sel" and pre: "sel \<notin> selector ` set pre"
    and l1: "l1 = snd (add_selector c sel ctx n0 n1 l)"
    and l2: "l2 = snd (add_selector c sel ctx' m0 m1 l1)"
  shows "entries_of (learned_selectors l2) c =
           pre @ e\<lparr>success_count := success_count e + 2, last_success := Some m1\<rparr> # post \<and>
         (\<forall>c'. c' \<noteq> c \<longrightarrow> learned_selectors l2 c' = learned_selectors l c')"
proof -
  let ?e1 = "e\<lparr>success_count := success_count e + 1, last_success := Some n1\<rparr>"
  have s1: "learned_selectors l1 = (learned_selectors l)(c \<mapsto> pre @ ?e1 # post)"
    unfolding l1 by (rule add_selector_existing[OF split e pre])
  have e1: "entries_of (learned_selectors l1) c = pre @ ?e1 # post"
    by (simp add: s1 entries_of_upd)
  have sel1: "selector ?e1 = sel" using e by simp
  have s2: "learned_selectors l2 = (learned_selectors l1)(c \<mapsto>
      pre @ ?e1\<lparr>success_count := success_count ?e1 + 1, last_success := Some m1\<rparr> # post)"
    unfolding l2 by (rule add_selector_existing[OF e1 sel1 pre])
  have "entries_of (learned_selectors l2) c =
      pre @ e\<lparr>success_count := success_count e + 2, last_success := Some m1\<rparr> # post"
    by (simp add: s2 entries_of_upd)
  moreover have "\<forall>c'. c' \<noteq> c \<longrightarrow> learned_selectors l2 c' = learned_selectors l c'"
    by (simp add: s1 s2)
  ultimately show ?thesis by blast
qed

text \<open>
  Claim C3, amended. Let a pair be recorded twice. In a store that does not yet hold the
  locator under the category, the first call appends one entry and the second increments
  it: exactly one entry for the pair, with success counter 2 and the second call's
  \<open>last_success\<close>. In a store that already holds the locator, nothing is appended:
  the first entry with that locator has its counter raised by 2 and its
  \<open>last_success\<close> set by the second call, and every other entry stays as it was.
  In both cases the other categories are untouched, and on a writable disk each call
  returns normally with the file equal to the in-memory store.
\<close>

theorem record_twice:
  assumes l1: "l1 = snd (add_selector c sel ctx n0 n1 l)"
    and l2: "l2 = snd (add_selector c sel ctx' m0 m1 l1)"
  shows "(sel \<notin> selector ` set (entries_of (learned_selectors l) c) \<longrightarrow>
            filter (\<lambda>e. selector e = sel) (entries_of (learned_selectors l2) c) =
              [\<lparr>selector = sel, context_note = ctx, learned_at = n0, success_count = 2,
                last_success = Some m1\<rparr>] \<and>
            entries_of (learned_selectors l2) c = entries_of (learned_selectors l) c @
              [\<lparr>selector = sel, context_note = ctx, learned_at = n0, success_count = 2,
                last_success = Some m1\<rparr>]) \<and>
         (\<forall>pre e post.
            entries_of (learned_selectors l) c = pre @ e # post \<and> selector e = sel \<and>
            sel \<notin> selector ` set pre \<longrightarrow>
            entries_of (learned_selectors l2) c =
              pre @ e\<lparr>success_count := success_count e + 2, last_success := Some m1\<rparr> # post) \<and>
         (\<forall>c'. c' \<noteq> c \<longrightarrow> learned_selectors l2 c' = learned_selectors l c') \<and>
         (file_writable l \<longrightarrow>
            fst (add_selector c sel ctx n0 n1 l) = None \<and>
            selectors_file l1 = Json (learned_selectors l1) \<and>
            fst (add_selector c sel ctx' m0 m1 l1) = None \<and>
            selectors_file l2 = Json (learned_selectors l2))"
proof -
  let ?new = "\<lparr>selector = sel, context_note = ctx, learned_at = n0, success_count = 2,
                last_success = Some m1\<rparr>"
  have fresh: "sel \<notin> selector ` set (entries_of (learned_selectors l) c) \<longrightarrow>
            filter (\<lambda>e. selector e = sel) (entries_of (learned_selectors l2) c) = [?new] \<and>
            entries_of (learned_selectors l2) c = entries_of (learned_selectors l) c @ [?new]"
  proof
    assume f: "sel \<notin> selector ` set (entries_of (learned_selectors l) c)"
    note r = record_twice_fresh_case[OF f l1 l2]
    from r[THEN conjunct1] r[THEN conjunct2, THEN conjunct1]
    show "filter (\<lambda>e. selector e = sel) (entries_of (learned_selectors l2) c) = [?new] \<and>
            entries_of (learned_selectors l2) c = entries_of (learned_selectors l) c @ [?new]"
      by (rule conjI)
  qed
  have existing: "\<forall>pre e post.
            entries_of (learned_selectors l) c = pre @ e # post \<and> selector e = sel \<and>
            sel \<notin> selector ` set pre \<longrightarrow>
            entries_of (learned_selectors l2) c =
              pre @ e\<lparr>success_count := success_count e + 2, last_success := Some m1\<rparr> # post"
  proof (intro allI impI)
    fix pre e post
    assume h: "entries_of (learned_selectors l) c = pre @ e # post \<and> selector e = sel \<and>
            sel \<notin> selector ` set pre"
    then have h1: "entries_of (learned_selectors l) c = pre @ e # post"
      and h2: "selector e = sel" and h3: "sel \<notin> selector ` set pre"
      by simp_all
    from record_twice_existing_case[OF h1 h2 h3 l1 l2, THEN conjunct1]
    show "entries_of (learned_selectors l2) c =
              pre @ e\<lparr>success_count := success_count e + 2, last_success := Some m1\<rparr> # post" .
  qed
  have other: "\<forall>c'. c' \<noteq> c \<longrightarrow> learned_selectors l2 c' = learned_selectors l c'"
  proof (cases "sel \<in> selector ` set (entries_of (learned_selectors l) c)")
    case True
    then have "\<exists>x\<in>set (entries_of (learned_selectors l) c). selector x = sel" by auto
    from split_list_first_prop[OF this] obtain pre e post where
      h1: "entries_of (learned_selectors l) c = pre @ e # post" and h2: "selector e = sel"
      and h3': "\<forall>y\<in>set pre. selector y \<noteq> sel"
      by blast
    from h3' have h3: "sel \<notin> selector ` set pre" by auto
    from record_twice_existing_case[OF h1 h2 h3 l1 l2, THEN conjunct2] show ?thesis .
  next
    case False
    from record_twice_fresh_case[OF False l1 l2, THEN conjunct2, THEN conjunct2]
    show ?thesis .
  qed
  have files: "file_writable l \<longrightarrow>
            fst (add_selector c sel ctx n0 n1 l) = None \<and>
            selectors_file l1 = Json (learned_selectors l1) \<and>
            fst (add_selector c sel ctx' m0 m1 l1) = None \<and>
            selectors_file l2 = Json (learned_selectors l2)"
  proof
    assume wr: "file_writable l"
    have w1: "file_writable l1"
      unfolding l1 using add_selector_file[OF wr] by simp
    have f1: "fst (add_selector c sel ctx n0 n1 l) = None \<and>
        selectors_file l1 = Json (learned_selectors l1)"
      using add_selector_file[OF wr, of c sel ctx n0 n1] by (simp add: l1)
    have f2: "fst (add_selector c sel ctx' m0 m1 l1) = None \<and>
        selectors_file l2 = Json (learned_selectors l2)"
      using add_selector_file[OF w1, of c sel ctx' m0 m1] by (simp add: l2)
    from f1[THEN conjunct1] f1[THEN conjunct2] f2[THEN conjunct1] f2[THEN conjunct2]
    show "fst (add_selector c sel ctx n0 n1 l) = None \<and>
            selectors_file l1 = Json (learned_selectors l1) \<and>
            fst (add_selector c sel ctx' m0 m1 l1) = None \<and>
            selectors_file l2 = Json (learned_selectors l2)"
      by (intro conjI)
  qed
  from fresh existing other files show ?thesis by (intro conjI)
qed

text \<open>
  The theorem at the default store, recording \<open>#go\<close> twice, and at the store that
  results, recording it twice more: one entry, with counter 2 and then 4.
\<close>

theorem record_twice_witness:
  "entries_of (learned_selectors
        (snd (add_selector ''continue_selectors'' ''#go'' ''b'' ''t2'' ''t3''
          (snd (add_selector ''continue_selectors'' ''#go'' ''a'' ''t0'' ''t1'' fresh_learner)))))
        ''continue_selectors'' =
   [\<lparr>selector = ''#go'', context_note = ''a'', learned_at = ''t0'', success_count = 2,
     last_success = Some ''t3''\<rparr>] \<and>
   entries_of (learned_selectors
        (snd (add_selector ''continue_selectors'' ''#go'' ''d'' ''t6'' ''t7''
          (snd (add_selector ''continue_selectors'' ''#go'' ''c'' ''t4'' ''t5''
            (snd (add_selector ''continue_selectors'' ''#go'' ''b'' ''t2'' ''t3''
              (snd (add_selector ''continue_selectors'' ''#go'' ''a'' ''t0'' ''t1''
                fresh_learner)))))))))
        ''continue_selectors'' =
   [\<lparr>selector = ''#go'', context_note = ''a'', learned_at = ''t0'', success_count = 4,
     last_success = Some ''t7''\<rparr>] \<and>
   selectors_file
        (snd (add_selector ''continue_selectors'' ''#go'' ''b'' ''t2'' ''t3''
          (snd (add_selector ''continue_selectors'' ''#go'' ''a'' ''t0'' ''t1'' fresh_learner)))) =
   Json (learned_selectors
        (snd (add_selector ''continue_selectors'' ''#go'' ''b'' ''t2'' ''t3''
          (snd (add_selector ''continue_selectors'' ''#go'' ''a'' ''t0'' ''t1'' fresh_learner)))))"
proof -
  let ?c = "''continue_selectors''"
  let ?l2 = "snd (add_selector ?c ''#go'' ''b'' ''t2'' ''t3''
          (snd (add_selector ?c ''#go'' ''a'' ''t0'' ''t1'' fresh_learner)))"
  let ?e2 = "\<lparr>selector = ''#go'', context_note = ''a'', learned_at = ''t0'', success_count = 2,
     last_success = Some ''t3''\<rparr>"
  have w: "file_writable fresh_learner" by (simp add: fresh_learner_def)
  have fr: "''#go'' \<notin> selector ` set (entries_of (learned_selectors fresh_learner) ?c)"
    by (simp add: fresh_learner_def default_store_def entries_of_def)
  note t = record_twice[where l = fresh_learner and c = ?c and sel = "''#go''" and ctx = "''a''"
      and ?n0.0 = "''t0''" and ?n1.0 = "''t1''" and ctx' = "''b''" and ?m0.0 = "''t2''"
      and ?m1.0 = "''t3''", OF refl refl]
  from t[THEN conjunct1, THEN mp, OF fr, THEN conjunct2]
  have a: "entries_of (learned_selectors ?l2) ?c =
      entries_of (learned_selectors fresh_learner) ?c @ [?e2]" .
  have e0: "entries_of (learned_selectors fresh_learner) ?c = []"
    by (simp add: fresh_learner_def default_store_def entries_of_def)
  from a e0 have a': "entries_of (learned_selectors ?l2) ?c = [?e2]" by simp
  have w1: "file_writable (snd (add_selector ?c ''#go'' ''a'' ''t0'' ''t1'' fresh_learner))"
    using add_selector_file[OF w] by blast
  have w2: "file_writable ?l2"
    using add_selector_file[OF w1] by blast
  note t2 = record_twice[where l = ?l2 and c = ?c and sel = "''#go''" and ctx = "''c''"
      and ?n0.0 = "''t4''" and ?n1.0 = "''t5''" and ctx' = "''d''" and ?m0.0 = "''t6''"
      and ?m1.0 = "''t7''", OF refl refl]
  have prem: "entries_of (learned_selectors ?l2) ?c = [] @ ?e2 # [] \<and> selector ?e2 = ''#go'' \<and>
      ''#go'' \<notin> selector ` set []"
    by (simp add: a')
  from t2[THEN conjunct2, THEN conjunct1, THEN spec, THEN spec, THEN spec, THEN mp, OF prem]
  have b: "entries_of (learned_selectors
              (snd (add_selector ?c ''#go'' ''d'' ''t6'' ''t7''
                (snd (add_selector ?c ''#go'' ''c'' ''t4'' ''t5'' ?l2))))) ?c =
      [] @ ?e2\<lparr>success_count := success_count ?e2 + 2, last_success := Some ''t7''\<rparr> # []" .
  have b': "entries_of (learned_selectors
              (snd (add_selector ?c ''#go'' ''d'' ''t6'' ''t7''
                (snd (add_selector ?c ''#go'' ''c'' ''t4'' ''t5'' ?l2))))) ?c =
      [\<lparr>selector = ''#go'', context_note = ''a'', learned_at = ''t0'', success_count = 4,
     last_success = Some ''t7''\<rparr>]"
    unfolding b by simp
  from t[THEN conjunct2, THEN conjunct2, THEN conjunct2, THEN mp, OF w,
      THEN conjunct2, THEN conjunct2, THEN conjunct2]
  have f: "selectors_file ?l2 = Json (learned_selectors ?l2)" .
  from a' b' f show ?thesis by (intro conjI)
qed

text \<open>
  Claim C3 as stated fails for a store that already holds the pair: after one earlier
  recording, two more recordings leave the counter at 3.
\<close>

theorem record_twice_existing_counterexample:
  "map success_count (filter (\<lambda>e. selector e = ''#go'')
     (entries_of (learned_selectors
        (snd (add_selector ''continue_selectors'' ''#go'' ''c'' ''t4'' ''t5''
          (snd (add_selector ''continue_selectors'' ''#go'' ''b'' ''t2'' ''t3''
            (snd (add_selector ''continue_selectors'' ''#go'' ''a'' ''t0'' ''t1'' fresh_learner)))))))
        ''continue_selectors'')) = [3]"
  by (simp add: fresh_learner_def default_store_def entries_of_def add_selector_def Let_def
      save_learned_selectors_def)

text \<open>
  Claim C4, amended. The merged list starts with the learned locators in the store's
  order; every learned locator stands before every locator that is not learned; the list
  holds exactly the learned and the base locators; no learned locator occurs after the
  learned prefix; and the list is duplicate-free when the learned locators and the base
  list each are.
\<close>

theorem combined_selectors_order:
  fixes l :: learner and category :: string and base :: "string list"
  defines "learned \<equiv> map selector (entries_of (learned_selectors l) category)"
    and "merged \<equiv> get_combined_selectors l category base"
  shows "take (length learned) merged = learned \<and>
         (\<forall>i j. i < length merged \<and> j < length merged \<and>
                merged ! i \<in> set learned \<and> merged ! j \<notin> set learned \<longrightarrow> i < j) \<and>
         set merged = set learned \<union> set base \<and>
         set (drop (length learned) merged) \<inter> set learned = {} \<and>
         (distinct learned \<and> distinct base \<longrightarrow> distinct merged)"
proof -
  have m: "merged = learned @ filter (\<lambda>s. s \<notin> set learned) base"
    by (simp add: merged_def learned_def get_combined_selectors_def Let_def)
  have a: "take (length learned) merged = learned" by (simp add: m)
  have b: "\<forall>i j. i < length merged \<and> j < length merged \<and>
                merged ! i \<in> set learned \<and> merged ! j \<notin> set learned \<longrightarrow> i < j"
  proof (intro allI impI)
    fix i j
    assume h: "i < length merged \<and> j < length merged \<and>
                merged ! i \<in> set learned \<and> merged ! j \<notin> set learned"
    have j: "length learned \<le> j"
    proof (rule ccontr)
      assume "\<not> length learned \<le> j"
      then have "j < length learned" by simp
      then have "merged ! j \<in> set learned" by (simp add: m nth_append)
      with h show False by simp
    qed
    have i: "i < length learned"
    proof (rule ccontr)
      assume n: "\<not> i < length learned"
      then have "merged ! i = filter (\<lambda>s. s \<notin> set learned) base ! (i - length learned)"
        by (simp add: m nth_append)
      moreover have "i < length learned + length (filter (\<lambda>s. s \<notin> set learned) base)"
        using h by (simp add: m)
      then have "i - length learned < length (filter (\<lambda>s. s \<notin> set learned) base)"
        using n by arith
      ultimately have "merged ! i \<in> set (filter (\<lambda>s. s \<notin> set learned) base)"
        by (metis nth_mem)
      with h show False by simp
    qed
    from i j show "i < j" by simp
  qed
  have c: "set merged = set learned \<union> set base" by (auto simp: m)
  have d: "set (drop (length learned) merged) \<inter> set learned = {}" by (auto simp: m)
  have e: "distinct learned \<and> distinct base \<longrightarrow> distinct merged" by (auto simp: m)
  from a b c d e show ?thesis by blast
qed

text \<open>The theorem with \<open>#go\<close> learned and present in the base list too.\<close>

theorem combined_selectors_order_witness:
  "take 1 (get_combined_selectors
     (snd (add_selector ''continue_selectors'' ''#go'' ''a'' ''t0'' ''t1'' fresh_learner))
     ''continue_selectors'' [''input#continue'', ''#go'', ''text=Next'']) = [''#go''] \<and>
   distinct (get_combined_selectors
     (snd (add_selector ''continue_selectors'' ''#go'' ''a'' ''t0'' ''t1'' fresh_learner))
     ''continue_selectors'' [''input#continue'', ''#go'', ''text=Next''])"
proof -
  let ?l = "snd (add_selector ''continue_selectors'' ''#go'' ''a'' ''t0'' ''t1'' fresh_learner)"
  let ?b = "[''input#continue'', ''#go'', ''text=Next'']"
  have l: "map selector (entries_of (learned_selectors ?l) ''continue_selectors'') = [''#go'']"
    by (simp add: fresh_learner_def default_store_def entries_of_def add_selector_def Let_def
        save_learned_selectors_def)
  note t = combined_selectors_order[of ?l "''continue_selectors''" ?b]
  from t have "take (length (map selector (entries_of (learned_selectors ?l) ''continue_selectors'')))
      (get_combined_selectors ?l ''continue_selectors'' ?b) =
      map selector (entries_of (learned_selectors ?l) ''continue_selectors'')"
    by blast
  then have a: "take 1 (get_combined_selectors ?l ''continue_selectors'' ?b) = [''#go'']"
    by (simp add: l)
  from t have "distinct (map selector (entries_of (learned_selectors ?l) ''continue_selectors'')) \<and>
      distinct ?b \<longrightarrow> distinct (get_combined_selectors ?l ''continue_selectors'' ?b)"
    by blast
  then have b: "distinct (get_combined_selectors ?l ''continue_selectors'' ?b)"
    by (simp add: l)
  from a b show ?thesis by blast
qed

text \<open>
  Claim C4 as stated fails for a base list that repeats a locator which is not learned:
  both copies are kept.
\<close>

theorem combined_selectors_duplicate_counterexample:
  "\<not> distinct (get_combined_selectors fresh_learner ''continue_selectors''
       [''input#continue'', ''input#continue''])"
  by (simp add: fresh_learner_def default_store_def entries_of_def get_combined_selectors_def)



section \<open>Properties of the selector resolver\<close>

lemma find_element_robust_hit:
  "n < length sels \<Longrightarrow>
   dom_probe p (length (probed p) + n) (sels ! n) = Appeared \<Longrightarrow>
   (\<forall>k<n. dom_probe p (length (probed p) + k) (sels ! k) \<noteq> Appeared) \<Longrightarrow>
   find_element_robust p sels = (Some (sels ! n), p\<lparr>probed := probed p @ take (Suc n) sels\<rparr>)"
proof (induction sels arbitrary: p n)
  case Nil
  then show ?case by simp
next
  case (Cons s ss)
  show ?case
  proof (cases n)
    case 0
    with Cons.prems show ?thesis by (simp add: wait_for_selector_def)
  next
    case (Suc m)
    let ?p' = "p\<lparr>probed := probed p @ [s]\<rparr>"
    from Cons.prems(3) Suc have first: "dom_probe p (length (probed p)) s \<noteq> Appeared"
      by force
    have m: "m < length ss" using Cons.prems(1) Suc by simp
    have hit: "dom_probe ?p' (length (probed ?p') + m) (ss ! m) = Appeared"
      using Cons.prems(2) Suc by simp
    have before: "\<forall>k<m. dom_probe ?p' (length (probed ?p') + k) (ss ! k) \<noteq> Appeared"
    proof (intro allI impI)
      fix k assume "k < m"
      then have "Suc k < n" using Suc by simp
      with Cons.prems(3) have "dom_probe p (length (probed p) + Suc k) ((s # ss) ! Suc k) \<noteq> Appeared"
        by blast
      then show "dom_probe ?p' (length (probed ?p') + k) (ss ! k) \<noteq> Appeared" by simp
    qed
    have rec: "find_element_robust ?p' ss = (Some (ss ! m), ?p'\<lparr>probed := probed ?p' @ take (Suc m) ss\<rparr>)"
      by (rule Cons.IH[OF m hit before])
    from first have "find_element_robust p (s # ss) = find_element_robust ?p' ss"
      by (cases "dom_probe p (length (probed p)) s") (simp_all add: wait_for_selector_def)
    with rec Suc show ?thesis by simp
  qed
qed

lemma find_element_robust_miss:
  "(\<forall>k<length sels. dom_probe p (length (probed p) + k) (sels ! k) \<noteq> Appeared) \<Longrightarrow>
   find_element_robust p sels = (None, p\<lparr>probed := probed p @ sels\<rparr>)"
proof (induction sels arbitrary: p)
  case Nil
  then show ?case by simp
next
  case (Cons s ss)
  let ?p' = "p\<lparr>probed := probed p @ [s]\<rparr>"
  from Cons.prems have first: "dom_probe p (length (probed p)) s \<noteq> Appeared"
    by force
  have rest: "\<forall>k<length ss. dom_probe ?p' (length (probed ?p') + k) (ss ! k) \<noteq> Appeared"
  proof (intro allI impI)
    fix k assume "k < length ss"
    then have "Suc k < length (s # ss)" by simp
    with Cons.prems have "dom_probe p (length (probed p) + Suc k) ((s # ss) ! Suc k) \<noteq> Appeared"
      by blast
    then show "dom_probe ?p' (length (probed ?p') + k) (ss ! k) \<noteq> Appeared" by simp
  qed
  from first have "find_element_robust p (s # ss) = find_element_robust ?p' ss"
    by (cases "dom_probe p (length (probed p)) s") (simp_all add: wait_for_selector_def)
  with Cons.IH[OF rest] show ?case by simp
qed

text \<open>
  Claim C5. Starting from any page, if the candidate at position \<open>n\<close> is the first
  whose probe succeeds, the resolver returns exactly that candidate and has probed the
  candidates up to and including it, in list order, and none after it; probes that time
  out or raise another error are skipped alike. If no probe succeeds, the resolver
  returns \<open>None\<close> after probing the whole list in order.
\<close>

theorem find_element_robust_first_match:
  "(\<forall>n. n < length sels \<and>
        dom_probe p (length (probed p) + n) (sels ! n) = Appeared \<and>
        (\<forall>k<n. dom_probe p (length (probed p) + k) (sels ! k) \<noteq> Appeared) \<longrightarrow>
        find_element_robust p sels =
          (Some (sels ! n), p\<lparr>probed := probed p @ take (Suc n) sels\<rparr>)) \<and>
   ((\<forall>k<length sels. dom_probe p (length (probed p) + k) (sels ! k) \<noteq> Appeared) \<longrightarrow>
        find_element_robust p sels = (None, p\<lparr>probed := probed p @ sels\<rparr>))"
  using find_element_robust_hit[of _ sels p] find_element_robust_miss[of sels p] by blast

text \<open>
  The theorem on a page where only the third of four candidates resolves, the first
  timing out and the second raising another error: the fourth is never probed.
\<close>

theorem find_element_robust_first_match_witness:
  "find_element_robust (page_with_only ''#c'' ''#b'') [''#a'', ''#b'', ''#c'', ''#d''] =
     (Some ''#c'', (page_with_only ''#c'' ''#b'')\<lparr>probed := [''#a'', ''#b'', ''#c'']\<rparr>)"
proof -
  let ?p = "page_with_only ''#c'' ''#b''"
  let ?sels = "[''#a'', ''#b'', ''#c'', ''#d'']"
  have pre: "2 < length ?sels \<and>
        dom_probe ?p (length (probed ?p) + 2) (?sels ! 2) = Appeared \<and>
        (\<forall>k<2. dom_probe ?p (length (probed ?p) + k) (?sels ! k) \<noteq> Appeared)"
    by (simp add: page_with_only_def less_Suc_eq numeral_2_eq_2)
  from find_element_robust_first_match[of ?sels ?p] pre
  have "find_element_robust ?p ?sels =
          (Some (?sels ! 2), ?p\<lparr>probed := probed ?p @ take (Suc 2) ?sels\<rparr>)"
    by blast
  then show ?thesis by (simp add: page_with_only_def)
qed

section \<open>Properties of the categorizer\<close>

lemmas string_eval = lower_def lower_char_def upper_def upper_char_def sublist_Cons_right

text \<open>
  Claim C10. Outside the \<open>signin\<close> context, an interaction whose text contains
  \<open>continue\<close> in any letter case is categorized \<open>create_account_selectors\<close>;
  and \<open>continue_selectors\<close> is returned only outside the \<open>signin\<close> context for a
  text that contains \<open>next\<close> or \<open>proceed\<close> and none of \<open>continue\<close>,
  \<open>verify\<close>, \<open>create\<close>, \<open>submit\<close>.
\<close>

theorem categorize_interaction_continue:
  "(ctx \<noteq> ''signin'' \<and> dict_get interaction ''text'' (VStr []) = VStr t \<and>
      sublist ''continue'' (lower t) \<longrightarrow>
      categorize_interaction ctx interaction = Inr ''create_account_selectors'') \<and>
   (categorize_interaction ctx interaction = Inr ''continue_selectors'' \<longrightarrow>
      ctx \<noteq> ''signin'' \<and>
      (\<exists>u. dict_get interaction ''text'' (VStr []) = VStr u \<and>
           (sublist ''next'' (lower u) \<or> sublist ''proceed'' (lower u)) \<and>
           \<not> sublist ''continue'' (lower u) \<and> \<not> sublist ''verify'' (lower u) \<and>
           \<not> sublist ''create'' (lower u) \<and> \<not> sublist ''submit'' (lower u)))"
  by (auto simp: categorize_interaction_def Let_def split: pyval.splits if_splits)

text \<open>
  The theorem on a click on \<open>Continue\<close> in the context \<open>otp\<close>, next to a click
  on \<open>Next step\<close>, which is the kind of text that reaches \<open>continue_selectors\<close>.
\<close>

theorem categorize_interaction_continue_witness:
  "categorize_interaction ''otp'' [(''text'', VStr ''Continue'')] =
     Inr ''create_account_selectors'' \<and>
   categorize_interaction ''otp'' [(''text'', VStr ''Next step'')] = Inr ''continue_selectors''"
proof -
  have pre: "''otp'' \<noteq> ''signin'' \<and>
      dict_get [(''text'', VStr ''Continue'')] ''text'' (VStr []) = VStr ''Continue'' \<and>
      sublist ''continue'' (lower ''Continue'')"
    by (simp add: dict_get_def string_eval)
  from categorize_interaction_continue[of "''otp''" "[(''text'', VStr ''Continue'')]" "''Continue''"] pre
  have a: "categorize_interaction ''otp'' [(''text'', VStr ''Continue'')] =
     Inr ''create_account_selectors''"
    by blast
  have b: "categorize_interaction ''otp'' [(''text'', VStr ''Next step'')] = Inr ''continue_selectors''"
    by (simp add: categorize_interaction_def dict_get_def string_eval)
  from a b show ?thesis by blast
qed

section \<open>Properties of the stealth script synthesizer\<close>

lemmas script_eval =
  generate_ultimate_stealth_script_def with_defaults_def script_fields_def eval_field_def
  subscript_def dict_get_def py_format_def app_version_def str_split_def string_eval
  str_int_def str_nat.simps

lemma eval_field_pure_world: "pure_field f \<Longrightarrow> snd (eval_field T p f w) = w"
  by (auto simp: pure_field_def eval_field_def split: field.splits sum.splits pyval.splits)

lemma eval_field_pure_text:
  "pure_field f \<Longrightarrow> fst (eval_field T p f w) = fst (eval_field T p f w')"
  by (auto simp: pure_field_def eval_field_def split: field.splits sum.splits pyval.splits)

lemma render_pure_world: "list_all pure_field fs \<Longrightarrow> snd (render T p i fs w) = w"
proof (induction fs arbitrary: i)
  case Nil
  then show ?case by simp
next
  case (Cons f fs)
  from Cons.prems have pf: "pure_field f" and pfs: "list_all pure_field fs" by simp_all
  obtain x where x: "eval_field T p f w = (x, w)"
    using eval_field_pure_world[OF pf, of T p w] by (cases "eval_field T p f w") simp
  obtain y where y: "render T p (Suc i) fs w = (y, w)"
    using Cons.IH[OF pfs, of "Suc i"] by (cases "render T p (Suc i) fs w") simp
  show ?case
    by (cases x; cases y) (simp_all add: x y)
qed

lemma render_pure_text:
  "list_all pure_field fs \<Longrightarrow> fst (render T p i fs w) = fst (render T p i fs w')"
proof (induction fs arbitrary: i)
  case Nil
  then show ?case by simp
next
  case (Cons f fs)
  from Cons.prems have pf: "pure_field f" and pfs: "list_all pure_field fs" by simp_all
  obtain x where x: "eval_field T p f w = (x, w)"
    using eval_field_pure_world[OF pf, of T p w] by (cases "eval_field T p f w") simp
  have x': "eval_field T p f w' = (x, w')"
    using eval_field_pure_world[OF pf, of T p w'] eval_field_pure_text[OF pf, of T p w w'] x
    by (cases "eval_field T p f w'") simp
  obtain y where y: "render T p (Suc i) fs w = (y, w)"
    using render_pure_world[OF pfs, of T p "Suc i" w] by (cases "render T p (Suc i) fs w") simp
  have y': "render T p (Suc i) fs w' = (y, w')"
    using render_pure_world[OF pfs, of T p "Suc i" w'] Cons.IH[OF pfs, of "Suc i"] y
    by (cases "render T p (Suc i) fs w'") simp
  show ?case
    by (cases x; cases y) (simp_all add: x x' y y')
qed

lemma script_fields_pure: "list_all pure_field script_fields"
  by (simp add: script_fields_def pure_field_def)

lemma render_total:
  assumes "list_all pure_field fs"
    and "list_all (\<lambda>f. \<exists>s. fst (eval_field T p f w) = Inr s) fs"
  shows "\<exists>s. fst (render T p i fs w) = Inr s"
  using assms
proof (induction fs arbitrary: i)
  case Nil
  then show ?case by simp
next
  case (Cons f fs)
  from Cons.prems have pf: "pure_field f" and pfs: "list_all pure_field fs" by simp_all
  from Cons.prems obtain s where "fst (eval_field T p f w) = Inr s" by auto
  with eval_field_pure_world[OF pf, of T p w] have s: "eval_field T p f w = (Inr s, w)"
    by (cases "eval_field T p f w") simp
  from Cons.prems have "list_all (\<lambda>f. \<exists>s. fst (eval_field T p f w) = Inr s) fs" by simp
  from Cons.IH[OF pfs this, of "Suc i"] obtain rest where
    "fst (render T p (Suc i) fs w) = Inr rest" by blast
  with render_pure_world[OF pfs, of T p "Suc i" w]
  have "render T p (Suc i) fs w = (Inr rest, w)"
    by (cases "render T p (Suc i) fs w") simp
  with s show ?case by simp
qed

lemma split_acc_nonempty: "split_acc sep acc s \<noteq> []"
  by (induction sep acc s rule: split_acc.induct) auto

lemma split_acc_two_pieces:
  "sep \<noteq> [] \<Longrightarrow> sublist sep s \<Longrightarrow> \<exists>a b rest. split_acc sep acc s = a # b # rest"
proof (induction sep acc s rule: split_acc.induct)
  case (1 sep acc)
  then show ?case by simp
next
  case (2 sep acc c cs)
  show ?case
  proof (cases "prefix sep (c # cs)")
    case True
    obtain b rest where "split_acc sep [] (drop (length sep) (c # cs)) = b # rest"
      using split_acc_nonempty[of sep "[]" "drop (length sep) (c # cs)"]
      by (cases "split_acc sep [] (drop (length sep) (c # cs))") auto
    with True "2.prems"(1) show ?thesis by simp
  next
    case False
    with "2.prems"(2) have "sublist sep cs" by (simp add: sublist_Cons_right)
    with "2.IH"(2) "2.prems"(1) False show ?thesis by simp
  qed
qed

lemma app_version_text: "\<exists>s. app_version (VStr ua) = Inr s"
proof (cases "sublist ''Mozilla/'' ua")
  case True
  from split_acc_two_pieces[OF _ True, of "[]"]
  obtain a b rest where "split_acc ''Mozilla/'' [] ua = a # b # rest" by auto
  with True show ?thesis by (simp add: app_version_def str_split_def)
next
  case False
  then show ?thesis by (simp add: app_version_def)
qed

lemma is_text_dict_get:
  "is_text (dict_get p k (VStr a)) \<Longrightarrow> \<exists>s. dict_get p k (VStr b) = VStr s"
  by (auto simp: is_text_def dict_get_def split: option.splits pyval.splits)

lemma is_screen_dict_get:
  "is_screen (dict_get p k (VDict [(''width'', VInt 0), (''height'', VInt 0)])) \<Longrightarrow>
   \<exists>d w h. dict_get p k (VDict [(''width'', VInt 1920), (''height'', VInt 1080)]) = VDict d \<and>
     map_of d ''width'' = Some w \<and> map_of d ''height'' = Some h"
  by (auto simp: is_screen_def dict_get_def split: option.splits pyval.splits)

lemma fields_total:
  assumes "generator_typed profile"
  shows "list_all (\<lambda>f. \<exists>s. fst (eval_field T (with_defaults profile) f w) = Inr s) script_fields"
proof -
  from assms obtain os where os: "dict_get profile ''os'' (VStr ''Windows'') = VStr os"
    unfolding generator_typed_def using is_text_dict_get by blast
  from assms obtain ty where ty: "dict_get profile ''type'' (VStr ''desktop'') = VStr ty"
    unfolding generator_typed_def using is_text_dict_get by blast
  from assms obtain ua where ua: "dict_get profile ''user_agent''
      (VStr ''Mozilla/5.0 (Windows NT 10.0; Win64; x64) AppleWebKit/537.36'') = VStr ua"
    unfolding generator_typed_def using is_text_dict_get by blast
  from assms obtain d w h where d: "dict_get profile ''screen''
      (VDict [(''width'', VInt 1920), (''height'', VInt 1080)]) = VDict d"
      "map_of d ''width'' = Some w" "map_of d ''height'' = Some h"
    unfolding generator_typed_def using is_screen_dict_get by blast
  obtain av where av: "app_version (VStr ua) = Inr av"
    using app_version_text by blast
  show ?thesis
    by (simp add: script_fields_def with_defaults_def eval_field_def subscript_def os ty ua d av)
qed

lemma with_defaults_cong:
  "\<forall>k\<in>set consumed_keys. map_of p k = map_of q k \<Longrightarrow> with_defaults p = with_defaults q"
  by (simp add: consumed_keys_def with_defaults_def dict_get_def)

lemma stealth_script_reads_consumed_keys:
  "\<forall>k\<in>set consumed_keys. map_of p k = map_of q k \<Longrightarrow>
     generate_ultimate_stealth_script T p w = generate_ultimate_stealth_script T q w"
  using with_defaults_cong[of p q] by (simp add: generate_ultimate_stealth_script_def)

text \<open>
  The evaluator does tell worlds apart: the field \<open>{random.randint(115, 120)}\<close> of
  the Firefox version string renders differently under different draws, and leaves the
  random source advanced.
\<close>

lemma random_field_depends_on_world:
  "fst (render plain_template [] 0 [RandInt 115 120] (world_of_draw 0)) = Inr ''#115#'' \<and>
   fst (render plain_template [] 0 [RandInt 115 120] (world_of_draw 1)) = Inr ''#116#'' \<and>
   snd (render plain_template [] 0 [RandInt 115 120] (world_of_draw 0)) \<noteq> world_of_draw 0"
  by (simp add: eval_field_def random_randint_def world_of_draw_def constant_rng_def
      advance_def plain_template_def str_int_def str_nat.simps)

text \<open>
  Claim C7. None of the forty fields of the script draws a random number or reads a
  module-level variable, so the call returns the same result, text or exception, in every
  world, and leaves the world as it found it: a second call with the same dictionary,
  made in the world the first call left, returns the same result again.
\<close>

theorem stealth_script_deterministic:
  "fst (generate_ultimate_stealth_script T p w) = fst (generate_ultimate_stealth_script T p w') \<and>
   snd (generate_ultimate_stealth_script T p w) = w \<and>
   fst (generate_ultimate_stealth_script T p (snd (generate_ultimate_stealth_script T p w))) =
     fst (generate_ultimate_stealth_script T p w)"
proof -
  have a: "fst (generate_ultimate_stealth_script T p w) =
      fst (generate_ultimate_stealth_script T p w')"
    unfolding generate_ultimate_stealth_script_def
    by (rule render_pure_text[OF script_fields_pure])
  have b: "snd (generate_ultimate_stealth_script T p w) = w"
    unfolding generate_ultimate_stealth_script_def
    by (rule render_pure_world[OF script_fields_pure])
  from a b show ?thesis by simp
qed

text \<open>
  The theorem on a Linux profile, called in two worlds whose draws differ: the same
  text.
\<close>

theorem stealth_script_deterministic_witness:
  "fst (generate_ultimate_stealth_script plain_template
          [(''os'', VStr ''Linux''), (''browser'', VStr ''firefox'')] (world_of_draw 0)) =
   fst (generate_ultimate_stealth_script plain_template
          [(''os'', VStr ''Linux''), (''browser'', VStr ''firefox'')] (world_of_draw 1))"
  using stealth_script_deterministic[of plain_template
      "[(''os'', VStr ''Linux''), (''browser'', VStr ''firefox'')]" "world_of_draw 0"
      "world_of_draw 1"]
  by (rule conjunct1)

text \<open>
  Claim C8, amended. For every profile whose present fields have the types the
  generators give them, script text is produced; the empty profile is one of them; and
  a missing top-level key among those read takes the value it has for the empty
  profile, which is the desktop Windows default (\<open>Windows\<close>, \<open>desktop\<close>,
  \<open>Win32\<close>, 8 cores, 16 GB, a 1920 by 1080 screen).
\<close>

theorem stealth_script_total_on_typed:
  "(generator_typed profile \<longrightarrow>
      (\<exists>s. fst (generate_ultimate_stealth_script T profile w) = Inr s)) \<and>
   generator_typed [] \<and>
   (\<forall>k\<in>set consumed_keys. map_of profile k = None \<longrightarrow>
      map_of (with_defaults profile) k = map_of (with_defaults []) k) \<and>
   map_of (with_defaults []) ''os'' = Some (VStr ''Windows'') \<and>
   map_of (with_defaults []) ''type'' = Some (VStr ''desktop'') \<and>
   map_of (with_defaults []) ''platform'' = Some (VStr ''Win32'') \<and>
   map_of (with_defaults []) ''hardware_concurrency'' = Some (VInt 8) \<and>
   map_of (with_defaults []) ''device_memory'' = Some (VInt 16) \<and>
   map_of (with_defaults []) ''screen'' =
     Some (VDict [(''width'', VInt 1920), (''height'', VInt 1080)])"
proof -
  have a: "generator_typed profile \<longrightarrow>
      (\<exists>s. fst (generate_ultimate_stealth_script T profile w) = Inr s)"
  proof
    assume h: "generator_typed profile"
    from render_total[where T = T and p = "with_defaults profile" and w = w and i = 0,
        OF script_fields_pure fields_total[OF h]]
    show "\<exists>s. fst (generate_ultimate_stealth_script T profile w) = Inr s"
      by (simp add: generate_ultimate_stealth_script_def)
  qed
  have b: "generator_typed []"
    by (simp add: generator_typed_def is_text_def is_screen_def dict_get_def)
  have c: "\<forall>k\<in>set consumed_keys. map_of profile k = None \<longrightarrow>
      map_of (with_defaults profile) k = map_of (with_defaults []) k"
    by (simp add: consumed_keys_def with_defaults_def dict_get_def)
  have d: "map_of (with_defaults []) ''os'' = Some (VStr ''Windows'') \<and>
   map_of (with_defaults []) ''type'' = Some (VStr ''desktop'') \<and>
   map_of (with_defaults []) ''platform'' = Some (VStr ''Win32'') \<and>
   map_of (with_defaults []) ''hardware_concurrency'' = Some (VInt 8) \<and>
   map_of (with_defaults []) ''device_memory'' = Some (VInt 16) \<and>
   map_of (with_defaults []) ''screen'' =
     Some (VDict [(''width'', VInt 1920), (''height'', VInt 1080)])"
    by (simp add: with_defaults_def dict_get_def)
  from a b c d show ?thesis by blast
qed

text \<open>The theorem on the empty profile: text is produced.\<close>

theorem stealth_script_total_on_typed_witness:
  "\<exists>s. fst (generate_ultimate_stealth_script plain_template [] (world_of_draw 0)) = Inr s"
  using stealth_script_total_on_typed[of "[]" plain_template "world_of_draw 0"] by blast

text \<open>
  Claim C8 as stated fails for a profile whose \<open>screen\<close> is present without
  \<open>width\<close>: the default is taken for a missing \<open>screen\<close> only, and the field
  \<open>{profile['screen']['width']}\<close> raises \<open>KeyError\<close>.
\<close>

theorem stealth_script_screen_counterexample:
  "fst (generate_ultimate_stealth_script plain_template [(''screen'', VDict [])]
          (world_of_draw 0)) = Inl KeyError"
  by (simp add: script_eval plain_template_def)

section \<open>Properties of the registration flow\<close>

lemmas flow_eval = begin_attempt_def credentials_def generated_credentials_def answer_def
  state_clear_def cleanup_session_def proceed_to_otp_def truthy_def FIRST_NAMES_def LAST_NAMES_def
  strip_def is_space_def EMAIL_RE_match_def addr_chars_def Let_def no_data_def
  started_bot_def clean_pass_def puzzle_pass_def duplicate_pass_def launches_def is_launch_def
  give_up_def first_retry_def second_retry_def stored_retry_count_def reaches_puzzle_def

lemma launches_simps:
  "launches (answer n b) = launches b"
  "launches (state_clear b) = launches b"
  "launches (cleanup_session b) = launches b"
  "launches (proceed_to_otp b) = launches b"
  "launches (give_up b) = launches b"
  "launches (first_retry px k b) = launches b"
  "launches (second_retry found k b) = launches b"
  "launches (b\<lparr>fsm_data := fd\<rparr>) = launches b"
  "launches (b\<lparr>proxy_enabled := pe\<rparr>) = launches b"
  "launches (b\<lparr>session_active := sa\<rparr>) = launches b"
  "launches (b\<lparr>fsm := st\<rparr>) = launches b"
  by (simp_all add: launches_def answer_def state_clear_def cleanup_session_def
      proceed_to_otp_def is_launch_def give_up_def first_retry_def second_retry_def Let_def
      split: option.splits)

lemma begin_attempt_simps:
  "launches (begin_attempt email a b) = Suc (launches b)"
  "stored_retry_count (begin_attempt email a b) = stored_retry_count b"
  "proxy_enabled (begin_attempt email a b) = proxy_enabled b"
  by (simp_all add: begin_attempt_def Let_def split_def launches_def answer_def is_launch_def
      stored_retry_count_def)

lemma stored_retry_count_simps:
  "stored_retry_count (answer n b) = stored_retry_count b"
  "stored_retry_count (b\<lparr>session_active := sa\<rparr>) = stored_retry_count b"
  "stored_retry_count (first_retry px k b) = k + 1"
  "stored_retry_count (second_retry found k b) = k + 1"
  by (simp_all add: stored_retry_count_def answer_def first_retry_def second_retry_def Let_def
      cleanup_session_def)

lemma retry_state_simps:
  "session_active (first_retry px k b) = False"
  "session_active (second_retry found k b) = False"
  "proxy_enabled (answer n b) = proxy_enabled b"
  "session_active (answer n b) = session_active b"
  by (simp_all add: answer_def first_retry_def second_retry_def Let_def cleanup_session_def)

lemma give_up_simps:
  "fsm (give_up b) = None"
  "fsm_data (give_up b) = no_data"
  "session_active (give_up b) = False"
  "proxy_enabled (give_up b) = False"
  "last (events (give_up b)) = Said PuzzlePersists"
  by (simp_all add: give_up_def state_clear_def cleanup_session_def answer_def)

lemma got_email_first_retry_step:
  assumes "reaches_puzzle a" "EMAIL_RE_match (strip text)" "\<not> session_active b"
    "\<not> proxy_enabled b" "stored_retry_count b = 0" "free_proxy a = Some px"
  shows "got_email True text (a # later) b =
         got_email True text later
           (first_retry px 0 (answer PuzzleActivatingFreeProxy
              ((begin_attempt (strip text) a b)\<lparr>session_active := True\<rparr>)))"
  using assms
  by (simp add: reaches_puzzle_def Let_def begin_attempt_simps stored_retry_count_simps)

lemma got_email_second_retry_step:
  assumes "reaches_puzzle a" "EMAIL_RE_match (strip text)" "\<not> session_active b"
    "stored_retry_count b = 1"
  shows "got_email True text (a # later) b =
         got_email True text later
           (second_retry (free_proxy a) 1 (answer PuzzleTryingOtherProxy
              ((begin_attempt (strip text) a b)\<lparr>session_active := True\<rparr>)))"
  using assms
  by (simp add: reaches_puzzle_def Let_def begin_attempt_simps stored_retry_count_simps)

lemma got_email_give_up_step:
  assumes "reaches_puzzle a" "EMAIL_RE_match (strip text)" "\<not> session_active b"
    "2 \<le> stored_retry_count b"
  shows "got_email True text (a # later) b =
         Returned (give_up ((begin_attempt (strip text) a b)\<lparr>session_active := True\<rparr>))"
  using assms
  by (simp add: reaches_puzzle_def Let_def begin_attempt_simps stored_retry_count_simps)

lemma got_email_direct:
  assumes "\<not> (reaches_puzzle a \<and> cp \<and> EMAIL_RE_match (strip text) \<and> \<not> session_active b \<and>
       ((stored_retry_count b = 0 \<and> \<not> proxy_enabled b \<and> free_proxy a \<noteq> None) \<or>
        stored_retry_count b = 1))"
  shows "\<exists>b'. (got_email cp text (a # later) b = Returned b' \<or>
               got_email cp text (a # later) b = Raised b') \<and>
              launches b' \<le> Suc (launches b)"
proof (cases "access_ok a \<and> EMAIL_RE_match (strip text) \<and> \<not> session_active b")
  case False
  then show ?thesis by (auto simp: Let_def launches_simps)
next
  case pre: True
  show ?thesis
  proof (cases "progress a")
    case Crashed
    with pre show ?thesis by (simp add: Let_def begin_attempt_simps)
  next
    case StepFails
    with pre show ?thesis by (simp add: Let_def begin_attempt_simps launches_simps)
  next
    case Proxy407
    with pre show ?thesis by (simp add: Let_def begin_attempt_simps launches_simps)
  next
    case Submitted
    show ?thesis
    proof (cases "duplicate_email_detected a \<or> \<not> cp \<or> phone_required a \<or> security_error a \<or>
        \<not> puzzle_detected a")
      case True
      with pre Submitted show ?thesis
        by (auto simp: Let_def begin_attempt_simps launches_simps)
    next
      case False
      with pre Submitted have r: "reaches_puzzle a" "cp" by (simp_all add: reaches_puzzle_def)
      with assms pre have c: "\<not> ((stored_retry_count b = 0 \<and> \<not> proxy_enabled b \<and> free_proxy a \<noteq> None) \<or>
        stored_retry_count b = 1)" by blast
      from pre Submitted False c show ?thesis
        by (auto simp: Let_def begin_attempt_simps launches_simps stored_retry_count_simps
            retry_state_simps)
    qed
  qed
qed

lemma passes_left_pos: "0 < passes_left b"
  by (simp add: passes_left_def)

lemma launches_bound:
  "bot_of (got_email cp text obs b) = Some b' \<Longrightarrow> launches b' \<le> launches b + passes_left b"
proof (induction obs arbitrary: b)
  case Nil
  then show ?case by (simp add: bot_of_def)
next
  case (Cons a later)
  let ?b3 = "(begin_attempt (strip text) a b)\<lparr>session_active := True\<rparr>"
  consider
    (first) "reaches_puzzle a" "cp" "EMAIL_RE_match (strip text)" "\<not> session_active b"
       "stored_retry_count b = 0" "\<not> proxy_enabled b" "free_proxy a \<noteq> None"
  | (second) "reaches_puzzle a" "cp" "EMAIL_RE_match (strip text)" "\<not> session_active b"
       "stored_retry_count b = 1"
  | (direct) "\<not> (reaches_puzzle a \<and> cp \<and> EMAIL_RE_match (strip text) \<and> \<not> session_active b \<and>
       ((stored_retry_count b = 0 \<and> \<not> proxy_enabled b \<and> free_proxy a \<noteq> None) \<or>
        stored_retry_count b = 1))"
    by blast
  then show ?case
  proof cases
    case first
    then obtain px where px: "free_proxy a = Some px" by auto
    let ?s = "first_retry px 0 (answer PuzzleActivatingFreeProxy ?b3)"
    have step: "got_email cp text (a # later) b = got_email cp text later ?s"
      using got_email_first_retry_step[OF first(1) first(3) first(4) first(6) first(5) px]
        first(2) by simp
    have l: "launches ?s = Suc (launches b)"
      by (simp add: launches_simps begin_attempt_simps)
    have p: "passes_left ?s = 2"
      by (simp add: passes_left_def stored_retry_count_simps)
    have pb: "passes_left b = 3"
      using first(5) by (simp add: passes_left_def)
    from Cons.IH[of ?s] Cons.prems step have "launches b' \<le> launches ?s + passes_left ?s"
      by simp
    with l p pb show ?thesis by simp
  next
    case second
    let ?s = "second_retry (free_proxy a) 1 (answer PuzzleTryingOtherProxy ?b3)"
    have step: "got_email cp text (a # later) b = got_email cp text later ?s"
      using got_email_second_retry_step[OF second(1) second(3) second(4) second(5)]
        second(2) by simp
    have l: "launches ?s = Suc (launches b)"
      by (simp add: launches_simps begin_attempt_simps)
    have p: "passes_left ?s = 1"
      by (simp add: passes_left_def stored_retry_count_simps)
    have pb: "passes_left b = 2"
      using second(5) by (simp add: passes_left_def)
    from Cons.IH[of ?s] Cons.prems step have "launches b' \<le> launches ?s + passes_left ?s"
      by simp
    with l p pb show ?thesis by simp
  next
    case direct
    from got_email_direct[OF direct, of later] obtain b'' where
      r: "got_email cp text (a # later) b = Returned b'' \<or>
          got_email cp text (a # later) b = Raised b''"
      and l: "launches b'' \<le> Suc (launches b)"
      by blast
    from r Cons.prems have "b' = b''" by (auto simp: bot_of_def)
    with l passes_left_pos[of b] show ?thesis by simp
  qed
qed

lemma enough_observations:
  "passes_left b \<le> length obs \<Longrightarrow> got_email cp text obs b \<noteq> NoObservation"
proof (induction obs arbitrary: b)
  case Nil
  with passes_left_pos[of b] show ?case by simp
next
  case (Cons a later)
  let ?b3 = "(begin_attempt (strip text) a b)\<lparr>session_active := True\<rparr>"
  consider
    (first) "reaches_puzzle a" "cp" "EMAIL_RE_match (strip text)" "\<not> session_active b"
       "stored_retry_count b = 0" "\<not> proxy_enabled b" "free_proxy a \<noteq> None"
  | (second) "reaches_puzzle a" "cp" "EMAIL_RE_match (strip text)" "\<not> session_active b"
       "stored_retry_count b = 1"
  | (direct) "\<not> (reaches_puzzle a \<and> cp \<and> EMAIL_RE_match (strip text) \<and> \<not> session_active b \<and>
       ((stored_retry_count b = 0 \<and> \<not> proxy_enabled b \<and> free_proxy a \<noteq> None) \<or>
        stored_retry_count b = 1))"
    by blast
  then show ?case
  proof cases
    case first
    then obtain px where px: "free_proxy a = Some px" by auto
    let ?s = "first_retry px 0 (answer PuzzleActivatingFreeProxy ?b3)"
    have step: "got_email cp text (a # later) b = got_email cp text later ?s"
      using got_email_first_retry_step[OF first(1) first(3) first(4) first(6) first(5) px]
        first(2) by simp
    have p: "passes_left ?s = 2"
      by (simp add: passes_left_def stored_retry_count_simps)
    have pb: "passes_left b = 3"
      using first(5) by (simp add: passes_left_def)
    from Cons.prems pb p have "passes_left ?s \<le> length later" by simp
    from Cons.IH[OF this] step show ?thesis by simp
  next
    case second
    let ?s = "second_retry (free_proxy a) 1 (answer PuzzleTryingOtherProxy ?b3)"
    have step: "got_email cp text (a # later) b = got_email cp text later ?s"
      using got_email_second_retry_step[OF second(1) second(3) second(4) second(5)]
        second(2) by simp
    have p: "passes_left ?s = 1"
      by (simp add: passes_left_def stored_retry_count_simps)
    have pb: "passes_left b = 2"
      using second(5) by (simp add: passes_left_def)
    from Cons.prems pb p have "passes_left ?s \<le> length later" by simp
    from Cons.IH[OF this] step show ?thesis by simp
  next
    case direct
    from got_email_direct[OF direct, of later] show ?thesis by auto
  qed
qed

lemma third_puzzle_gives_up:
  assumes a: "reaches_puzzle a1" "reaches_puzzle a2" "reaches_puzzle a3"
    and px: "free_proxy a1 \<noteq> None"
    and email: "EMAIL_RE_match (strip text)"
    and b: "\<not> session_active b" "\<not> proxy_enabled b" "stored_retry_count b = 0"
  shows "\<exists>b'. got_email True text (a1 # a2 # a3 # later) b = Returned b' \<and>
           fsm b' = None \<and> fsm_data b' = no_data \<and> \<not> session_active b' \<and>
           \<not> proxy_enabled b' \<and> last (events b') = Said PuzzlePersists \<and>
           launches b' = launches b + 3"
proof -
  from px obtain p where p: "free_proxy a1 = Some p" by auto
  let ?s1 = "first_retry p 0 (answer PuzzleActivatingFreeProxy
               ((begin_attempt (strip text) a1 b)\<lparr>session_active := True\<rparr>))"
  let ?s2 = "second_retry (free_proxy a2) 1 (answer PuzzleTryingOtherProxy
               ((begin_attempt (strip text) a2 ?s1)\<lparr>session_active := True\<rparr>))"
  let ?b' = "give_up ((begin_attempt (strip text) a3 ?s2)\<lparr>session_active := True\<rparr>)"
  have 1: "got_email True text (a1 # a2 # a3 # later) b = got_email True text (a2 # a3 # later) ?s1"
    by (rule got_email_first_retry_step[OF a(1) email b(1) b(2) b(3) p])
  have c1: "stored_retry_count ?s1 = 1" "\<not> session_active ?s1"
    by (simp_all add: stored_retry_count_simps retry_state_simps)
  have 2: "got_email True text (a2 # a3 # later) ?s1 = got_email True text (a3 # later) ?s2"
    by (rule got_email_second_retry_step[OF a(2) email c1(2) c1(1)])
  have c2: "2 \<le> stored_retry_count ?s2" "\<not> session_active ?s2"
    by (simp_all add: stored_retry_count_simps retry_state_simps)
  have 3: "got_email True text (a3 # later) ?s2 = Returned ?b'"
    by (rule got_email_give_up_step[OF a(3) email c2(2) c2(1)])
  have l: "launches ?b' = launches b + 3"
    by (simp add: launches_simps begin_attempt_simps)
  from 1 2 3 l show ?thesis
    by (simp add: give_up_simps)
qed

lemma restart_credentials:
  "d_retry_with_proxy fd \<noteq> Some True \<Longrightarrow> credentials fd a = generated_credentials a"
  by (simp add: credentials_def)

lemma duplicate_email_restart:
  assumes "access_ok a" "EMAIL_RE_match (strip text)" "\<not> session_active b"
    "progress a = Submitted" "duplicate_email_detected a"
  shows "\<exists>b'. got_email cp text (a # later) b = Returned b' \<and>
           fsm b' = Some waiting_for_email \<and> \<not> session_active b' \<and>
           d_original_full_name (fsm_data b') = Some (fst (credentials (fsm_data b) a)) \<and>
           d_original_password (fsm_data b') = Some (snd (credentials (fsm_data b) a)) \<and>
           d_retry_with_proxy (fsm_data b') = d_retry_with_proxy (fsm_data b) \<and>
           d_puzzle_retry_count (fsm_data b') = d_puzzle_retry_count (fsm_data b)"
  using assms
  by (simp add: Let_def begin_attempt_def split_def answer_def cleanup_session_def)

text \<open>
  Claim C1, evaluated on a failing run. The first message meets a duplicate-email warning:
  the handler returns to \<open>waiting_for_email\<close> and stores the name \<open>John Smith\<close>
  and the password under \<open>original_full_name\<close> and \<open>original_password\<close>. On the
  second message, with a new email, the handler does not read them: the browser is
  launched with the newly drawn name \<open>Jane Johnson\<close> and a new password.
\<close>

theorem duplicate_email_regenerates_credentials:
  "\<exists>b1 b2. got_email True ''first@example.com'' [duplicate_pass 0 0 ''t1''] started_bot =
             Returned b1 \<and>
           fsm b1 = Some waiting_for_email \<and>
           d_original_full_name (fsm_data b1) = Some ''John Smith'' \<and>
           d_original_password (fsm_data b1) = Some ''t1'' \<and>
           got_email True ''second@example.com'' [clean_pass 1 1 ''t2''] b1 = Returned b2 \<and>
           events b2 = events b1 @
             [Said RestartingAccountCreation,
              Launched False ''second@example.com'' ''Jane Johnson'' ''t2'',
              Said EnterVerificationCode] \<and>
           d_full_name (fsm_data b2) = Some ''Jane Johnson'' \<and>
           d_password (fsm_data b2) = Some ''t2''"
  by (simp add: flow_eval)

text \<open>
  Claim C2, amended. One call of \<open>got_email\<close> launches the browser at most three
  times, the first pass and two retries, whatever the passes observe, and returns once
  three passes are observed. From a state with no retry counted, the proxy disabled and
  no session, three passes in a row that detect the puzzle, the first finding a free
  proxy, end the call after the third launch with the failure message, the proxy
  disabled, the session cleaned up and the state cleared: the third detection is the one
  that ends the flow.
\<close>

theorem puzzle_retry_budget:
  "(\<forall>b'. bot_of (got_email cp text obs b) = Some b' \<longrightarrow> launches b' \<le> launches b + 3) \<and>
   (3 \<le> length obs \<longrightarrow> got_email cp text obs b \<noteq> NoObservation) \<and>
   (reaches_puzzle a1 \<and> reaches_puzzle a2 \<and> reaches_puzzle a3 \<and> free_proxy a1 \<noteq> None \<and>
    EMAIL_RE_match (strip text) \<and> \<not> session_active b \<and> \<not> proxy_enabled b \<and>
    stored_retry_count b = 0 \<longrightarrow>
      (\<exists>b'. got_email True text (a1 # a2 # a3 # later) b = Returned b' \<and>
            fsm b' = None \<and> fsm_data b' = no_data \<and> \<not> session_active b' \<and>
            \<not> proxy_enabled b' \<and> last (events b') = Said PuzzlePersists \<and>
            launches b' = launches b + 3))"
proof -
  have le3: "passes_left b \<le> 3" by (simp add: passes_left_def)
  have a: "\<forall>b'. bot_of (got_email cp text obs b) = Some b' \<longrightarrow> launches b' \<le> launches b + 3"
  proof (intro allI impI)
    fix b' assume "bot_of (got_email cp text obs b) = Some b'"
    from launches_bound[OF this] le3 show "launches b' \<le> launches b + 3" by simp
  qed
  have b: "3 \<le> length obs \<longrightarrow> got_email cp text obs b \<noteq> NoObservation"
    using enough_observations[of b obs cp "text"] le3 by simp
  from a b third_puzzle_gives_up[of a1 a2 a3 "text" b later] show ?thesis by blast
qed

text \<open>The theorem on three puzzle detections after \<open>/start\<close>.\<close>

theorem puzzle_retry_budget_witness:
  "\<exists>b'. got_email True ''new.user@example.com''
          [puzzle_pass 0 0 ''t1'' ''http://10.0.0.1:8080'',
           puzzle_pass 1 1 ''t2'' ''http://10.0.0.2:8080'',
           puzzle_pass 2 2 ''t3'' ''http://10.0.0.3:8080''] started_bot = Returned b' \<and>
        fsm b' = None \<and> last (events b') = Said PuzzlePersists \<and> launches b' = 3"
proof -
  have pre: "reaches_puzzle (puzzle_pass 0 0 ''t1'' ''http://10.0.0.1:8080'') \<and>
      reaches_puzzle (puzzle_pass 1 1 ''t2'' ''http://10.0.0.2:8080'') \<and>
      reaches_puzzle (puzzle_pass 2 2 ''t3'' ''http://10.0.0.3:8080'') \<and>
      free_proxy (puzzle_pass 0 0 ''t1'' ''http://10.0.0.1:8080'') \<noteq> None \<and>
      EMAIL_RE_match (strip ''new.user@example.com'') \<and> \<not> session_active started_bot \<and>
      \<not> proxy_enabled started_bot \<and> stored_retry_count started_bot = 0"
    by (simp add: flow_eval)
  have l0: "launches started_bot = 0" by (simp add: flow_eval)
  from puzzle_retry_budget[of True "''new.user@example.com''" "[]" started_bot
      "puzzle_pass 0 0 ''t1'' ''http://10.0.0.1:8080''"
      "puzzle_pass 1 1 ''t2'' ''http://10.0.0.2:8080''"
      "puzzle_pass 2 2 ''t3'' ''http://10.0.0.3:8080''" "[]"] pre l0
  show ?thesis by auto
qed

text \<open>
  Claim C2 as stated fails: after two puzzle detections in a row the flow does not
  end. The second detection triggers the second retry, and when that pass meets no
  puzzle the flow goes on to the verification code, with no failure message.
\<close>

theorem two_puzzles_then_clear_counterexample:
  "\<exists>b'. got_email True ''new.user@example.com''
          [puzzle_pass 0 0 ''t1'' ''http://10.0.0.1:8080'',
           puzzle_pass 1 1 ''t2'' ''http://10.0.0.2:8080'',
           clean_pass 2 2 ''t3''] started_bot = Returned b' \<and>
        fsm b' = Some waiting_for_otp \<and> Said PuzzlePersists \<notin> set (events b') \<and>
        last (events b') = Said EnterVerificationCode \<and> launches b' = 3"
  by (simp add: flow_eval)

section \<open>Properties of the profile generator\<close>

lemmas rng_eval = random_choice_def random_choices_def random_randint_def random_random_def
  random_uniform_tenths_def advance_def constant_rng_def

lemmas profile_eval = generate_ultimate_stealth_profile_def generate_windows_profile_def
  generate_macos_profile_def generate_linux_profile_def windows_browser_def macos_browser_def
  linux_browser_def generate_random_chrome_version_def generate_random_location_def
  run_generator_def device_generators_def dict_update_def size_dict_def Let_def
  str_int_def str_nat.simps

lemma random_choice_mem: "xs \<noteq> [] \<Longrightarrow> fst (random_choice xs r) \<in> set xs"
  by (simp add: random_choice_def)

lemma random_choice_elem: "random_choice xs r = (x, r') \<Longrightarrow> xs \<noteq> [] \<Longrightarrow> x \<in> set xs"
  using random_choice_mem[of xs r] by simp

lemma windows_chrome_table:
  "\<forall>g\<in>set windows_chrome_gpu_options. webgl_family_ok ''Windows'' ''chrome'' (fst g) (snd g)"
  by (simp add: windows_chrome_gpu_options_def webgl_family_ok_def sublist_Cons_right)

lemma windows_firefox_table:
  "\<forall>g\<in>set windows_firefox_renderers. webgl_family_ok ''Windows'' ''firefox'' ''Mozilla'' g"
  by (simp add: windows_firefox_renderers_def webgl_family_ok_def sublist_Cons_right)

lemma windows_edge_table:
  "\<forall>g\<in>set windows_edge_gpu_options. webgl_family_ok ''Windows'' ''edge'' (fst g) (snd g)"
  by (simp add: windows_edge_gpu_options_def webgl_family_ok_def sublist_Cons_right)

lemma windows_screen_table:
  "\<forall>s\<in>set windows_screen_viewport_options. viewport_fits (snd s) (fst s)"
  by (simp add: windows_screen_viewport_options_def viewport_fits_def dimension_def size_dict_def)

lemma choice_table:
  "fst (random_choice T r) = g \<Longrightarrow> T \<noteq> [] \<Longrightarrow> \<forall>g\<in>set T. P g \<Longrightarrow> P g"
  using random_choice_mem[of T r] by auto

lemma windows_browser_ok:
  assumes "windows_browser wv B r = ((ua, v, rd), r')"
    and "B \<in> set [''chrome'', ''firefox'', ''edge'']"
  shows "webgl_family_ok ''Windows'' B v rd"
proof -
  from assms(2) consider "B = ''chrome''" | "B = ''firefox''" | "B = ''edge''" by auto
  then show ?thesis
  proof cases
    case 1
    with assms(1) have "fst (random_choice windows_chrome_gpu_options
        (snd (generate_random_chrome_version r))) = (v, rd)"
      by (simp add: windows_browser_def Let_def split_def)
    from choice_table[OF this _ windows_chrome_table] show ?thesis
      by (simp add: 1 windows_chrome_gpu_options_def)
  next
    case 2
    with assms(1) have "fst (random_choice windows_firefox_renderers
        (snd (random_randint 115 120 r))) = rd" and "v = ''Mozilla''"
      by (simp_all add: windows_browser_def Let_def split_def)
    from choice_table[OF this(1) _ windows_firefox_table] this(2) show ?thesis
      by (simp add: 2 windows_firefox_renderers_def)
  next
    case 3
    with assms(1) have "fst (random_choice windows_edge_gpu_options
        (snd (random_randint 60 99 (snd (random_randint 1800 1900
          (snd (random_randint 115 120 r))))))) = (v, rd)"
      by (simp add: windows_browser_def Let_def split_def)
    from choice_table[OF this _ windows_edge_table] show ?thesis
      by (simp add: 3 windows_edge_gpu_options_def)
  qed
qed

lemma generate_windows_profile_consistent:
  "profile_consistent (fst (generate_windows_profile r))"
proof -
  obtain wv r1 where 1: "random_choice [''10.0'', ''11.0''] r = (wv, r1)"
    by (cases "random_choice [''10.0'', ''11.0''] r")
  obtain B r2 where 2: "random_choices [''chrome'', ''firefox'', ''edge''] r1 = (B, r2)"
    by (cases "random_choices [''chrome'', ''firefox'', ''edge''] r1")
  obtain ua v rd r3 where 3: "windows_browser wv B r2 = ((ua, v, rd), r3)"
    by (cases "windows_browser wv B r2") auto
  obtain sc vp r4 where 4: "random_choice windows_screen_viewport_options r3 = ((sc, vp), r4)"
    by (cases "random_choice windows_screen_viewport_options r3") auto
  from 2 have B: "B \<in> set [''chrome'', ''firefox'', ''edge'']"
    unfolding random_choices_def by (rule random_choice_elem) simp
  have gpu: "webgl_family_ok ''Windows'' B v rd"
    by (rule windows_browser_ok[OF 3 B])
  from random_choice_elem[OF 4] windows_screen_table have fit: "viewport_fits vp sc"
    by (force simp: windows_screen_viewport_options_def)
  show ?thesis
    using gpu fit
    by (simp add: generate_windows_profile_def 1 2 3 4 Let_def split_def
        profile_consistent_def webgl_consistent_def viewport_consistent_def text_field_def)
qed


lemma macos_safari_table:
  "\<forall>g\<in>set macos_safari_renderers. webgl_family_ok ''macOS'' ''safari'' ''Apple Inc.'' g"
  by (simp add: macos_safari_renderers_def webgl_family_ok_def sublist_Cons_right)

lemma macos_chrome_table:
  "\<forall>g\<in>set macos_chrome_renderers. webgl_family_ok ''macOS'' ''chrome'' ''Google Inc. (Apple)'' g"
  by (simp add: macos_chrome_renderers_def webgl_family_ok_def sublist_Cons_right)

lemma macos_firefox_table:
  "\<forall>g\<in>set macos_firefox_renderers. webgl_family_ok ''macOS'' ''firefox'' ''Mozilla'' g"
  by (simp add: macos_firefox_renderers_def webgl_family_ok_def sublist_Cons_right)

lemma macos_screen_table:
  "\<forall>s\<in>set macos_screen_viewport_options. viewport_fits (snd s) (fst s)"
  by (simp add: macos_screen_viewport_options_def viewport_fits_def dimension_def size_dict_def)

lemma macos_browser_ok:
  assumes "macos_browser mv B r = ((ua, v, rd), r')"
    and "B \<in> set [''safari'', ''chrome'', ''firefox'']"
  shows "webgl_family_ok ''macOS'' B v rd"
proof -
  from assms(2) consider "B = ''safari''" | "B = ''chrome''" | "B = ''firefox''" by auto
  then show ?thesis
  proof cases
    case 1
    with assms(1) have "fst (random_choice macos_safari_renderers
        (snd (random_randint 10 20 (snd (random_randint 1 3 (snd (random_randint 605 618
          (snd (random_randint 0 5 (snd (random_randint 16 17 r))))))))))) = rd"
      and "v = ''Apple Inc.''"
      by (simp_all add: macos_browser_def Let_def split_def)
    from choice_table[OF this(1) _ macos_safari_table] this(2) show ?thesis
      by (simp add: 1 macos_safari_renderers_def)
  next
    case 2
    with assms(1) have "fst (random_choice macos_chrome_renderers
        (snd (generate_random_chrome_version r))) = rd" and "v = ''Google Inc. (Apple)''"
      by (simp_all add: macos_browser_def Let_def split_def)
    from choice_table[OF this(1) _ macos_chrome_table] this(2) show ?thesis
      by (simp add: 2 macos_chrome_renderers_def)
  next
    case 3
    with assms(1) have "fst (random_choice macos_firefox_renderers
        (snd (random_randint 115 120 r))) = rd" and "v = ''Mozilla''"
      by (simp_all add: macos_browser_def Let_def split_def)
    from choice_table[OF this(1) _ macos_firefox_table] this(2) show ?thesis
      by (simp add: 3 macos_firefox_renderers_def)
  qed
qed

lemma generate_macos_profile_consistent:
  "profile_consistent (fst (generate_macos_profile r))"
proof -
  obtain mv r1 where 1:
    "random_choice [''10_15_7'', ''11_7_10'', ''12_6_8'', ''13_5_2'', ''14_0''] r = (mv, r1)"
    by (cases "random_choice [''10_15_7'', ''11_7_10'', ''12_6_8'', ''13_5_2'', ''14_0''] r")
  obtain B r2 where 2: "random_choices [''safari'', ''chrome'', ''firefox''] r1 = (B, r2)"
    by (cases "random_choices [''safari'', ''chrome'', ''firefox''] r1")
  obtain ua v rd r3 where 3: "macos_browser mv B r2 = ((ua, v, rd), r3)"
    by (cases "macos_browser mv B r2") auto
  obtain sc vp r4 where 4: "random_choice macos_screen_viewport_options r3 = ((sc, vp), r4)"
    by (cases "random_choice macos_screen_viewport_options r3") auto
  from 2 have B: "B \<in> set [''safari'', ''chrome'', ''firefox'']"
    unfolding random_choices_def by (rule random_choice_elem) simp
  have gpu: "webgl_family_ok ''macOS'' B v rd"
    by (rule macos_browser_ok[OF 3 B])
  from random_choice_elem[OF 4] macos_screen_table have fit: "viewport_fits vp sc"
    by (force simp: macos_screen_viewport_options_def)
  show ?thesis
    using gpu fit
    by (simp add: generate_macos_profile_def 1 2 3 4 Let_def split_def
        profile_consistent_def webgl_consistent_def viewport_consistent_def text_field_def)
qed

lemma linux_firefox_table:
  "\<forall>g\<in>set linux_firefox_renderers. webgl_family_ok ''Linux'' ''firefox'' ''Mozilla'' g"
  by (simp add: linux_firefox_renderers_def webgl_family_ok_def sublist_Cons_right)

lemma linux_chrome_table:
  "\<forall>g\<in>set linux_chrome_gpu_options. webgl_family_ok ''Linux'' ''chrome'' (fst g) (snd g)"
  by (simp add: linux_chrome_gpu_options_def webgl_family_ok_def sublist_Cons_right)

lemma linux_screen_table:
  "\<forall>s\<in>set linux_screen_viewport_options. viewport_fits (snd s) (fst s)"
  by (simp add: linux_screen_viewport_options_def viewport_fits_def dimension_def size_dict_def)

lemma linux_browser_ok:
  assumes "linux_browser B r = ((ua, v, rd), r')"
    and "B \<in> set [''firefox'', ''chrome'']"
  shows "webgl_family_ok ''Linux'' B v rd"
proof -
  from assms(2) consider "B = ''firefox''" | "B = ''chrome''" by auto
  then show ?thesis
  proof cases
    case 1
    with assms(1) have "fst (random_choice linux_firefox_renderers
        (snd (random_randint 115 120 r))) = rd" and "v = ''Mozilla''"
      by (simp_all add: linux_browser_def Let_def split_def)
    from choice_table[OF this(1) _ linux_firefox_table] this(2) show ?thesis
      by (simp add: 1 linux_firefox_renderers_def)
  next
    case 2
    with assms(1) have "fst (random_choice linux_chrome_gpu_options
        (snd (generate_random_chrome_version r))) = (v, rd)"
      by (simp add: linux_browser_def Let_def split_def)
    from choice_table[OF this _ linux_chrome_table] show ?thesis
      by (simp add: 2 linux_chrome_gpu_options_def)
  qed
qed

lemma generate_linux_profile_consistent:
  "viewport_consistent (fst (generate_linux_profile r)) \<and>
   (text_field (fst (generate_linux_profile r)) ''browser'' \<noteq> Some ''chromium'' \<longrightarrow>
      webgl_consistent (fst (generate_linux_profile r)))"
proof -
  obtain B r1 where 1: "random_choices [''firefox'', ''chrome'', ''chromium''] r = (B, r1)"
    by (cases "random_choices [''firefox'', ''chrome'', ''chromium''] r")
  obtain ua v rd r2 where 2: "linux_browser B r1 = ((ua, v, rd), r2)"
    by (cases "linux_browser B r1") auto
  obtain sc vp r3 where 3: "random_choice linux_screen_viewport_options r2 = ((sc, vp), r3)"
    by (cases "random_choice linux_screen_viewport_options r2") auto
  from 1 have B: "B \<in> set [''firefox'', ''chrome'', ''chromium'']"
    unfolding random_choices_def by (rule random_choice_elem) simp
  have gpu: "B \<noteq> ''chromium'' \<longrightarrow> webgl_family_ok ''Linux'' B v rd"
  proof
    assume "B \<noteq> ''chromium''"
    with B have "B \<in> set [''firefox'', ''chrome'']" by auto
    from linux_browser_ok[OF 2 this] show "webgl_family_ok ''Linux'' B v rd" .
  qed
  from random_choice_elem[OF 3] linux_screen_table have fit: "viewport_fits vp sc"
    by (force simp: linux_screen_viewport_options_def)
  show ?thesis
    using gpu fit
    by (simp add: generate_linux_profile_def 1 2 3 Let_def split_def
        webgl_consistent_def viewport_consistent_def text_field_def)
qed

lemma map_of_dict_set:
  "map_of (dict_set d k v) k' = (if k' = k then Some v else map_of d k')"
  by (induction d k v rule: dict_set.induct) auto

lemma map_of_dict_update:
  "k \<notin> fst ` set new \<Longrightarrow> map_of (dict_update d new) k = map_of d k"
proof (induction new arbitrary: d)
  case Nil
  then show ?case by (simp add: dict_update_def)
next
  case (Cons kv new)
  obtain k' v' where kv: "kv = (k', v')" by (cases kv)
  from Cons.prems kv have "k \<noteq> k'" and "k \<notin> fst ` set new" by auto
  with Cons.IH[of "dict_set d k' v'"] kv show ?case
    by (simp add: dict_update_def map_of_dict_set)
qed

lemma consistent_cong:
  assumes "\<forall>k\<in>set [''os'', ''browser'', ''webgl_vendor'', ''webgl_renderer'', ''viewport'', ''screen''].
     map_of p k = map_of q k"
  shows "webgl_consistent p = webgl_consistent q"
    and "viewport_consistent p = viewport_consistent q"
    and "text_field p ''browser'' = text_field q ''browser''"
  using assms by (simp_all add: webgl_consistent_def viewport_consistent_def text_field_def)

lemma run_generator_consistent:
  "viewport_consistent (fst (run_generator g r)) \<and>
   (text_field (fst (run_generator g r)) ''browser'' \<noteq> Some ''chromium'' \<longrightarrow>
      webgl_consistent (fst (run_generator g r)))"
proof (cases g)
  case Windows_generator
  with generate_windows_profile_consistent[of r] show ?thesis
    by (simp add: run_generator_def profile_consistent_def)
next
  case Macos_generator
  with generate_macos_profile_consistent[of r] show ?thesis
    by (simp add: run_generator_def profile_consistent_def)
next
  case Linux_generator
  with generate_linux_profile_consistent[of r] show ?thesis
    by (simp add: run_generator_def)
qed

lemma generated_profile_consistent_unless_chromium:
  "viewport_consistent (fst (generate_ultimate_stealth_profile r)) \<and>
   (text_field (fst (generate_ultimate_stealth_profile r)) ''browser'' \<noteq> Some ''chromium'' \<longrightarrow>
      profile_consistent (fst (generate_ultimate_stealth_profile r)))"
proof -
  obtain rv r1 where 1: "random_random r = (rv, r1)"
    by (cases "random_random r")
  define chosen where "chosen =
     (case select_generator rv 0 device_generators of
        Some generator \<Rightarrow> run_generator generator r1
      | None \<Rightarrow> generate_windows_profile r1)"
  have c: "viewport_consistent (fst chosen) \<and>
      (text_field (fst chosen) ''browser'' \<noteq> Some ''chromium'' \<longrightarrow> webgl_consistent (fst chosen))"
  proof (cases "select_generator rv 0 device_generators")
    case None
    with generate_windows_profile_consistent[of r1] show ?thesis
      by (simp add: chosen_def profile_consistent_def)
  next
    case (Some g)
    with run_generator_consistent[of g r1] show ?thesis
      by (simp add: chosen_def)
  qed
  obtain p0 r2 where 2: "chosen = (p0, r2)" by (cases chosen)
  obtain tz lc la lo ci r3 where 3: "generate_random_location r2 = ((tz, lc, la, lo, ci), r3)"
    by (cases "generate_random_location r2") auto
  obtain ct r4 where 4: "random_choice [''4g'', ''wifi'', ''ethernet''] r3 = (ct, r4)"
    by (cases "random_choice [''4g'', ''wifi'', ''ethernet''] r3")
  obtain rtt r5 where 5: "random_randint 20 150 r4 = (rtt, r5)"
    by (cases "random_randint 20 150 r4")
  obtain dl r6 where 6: "random_uniform_tenths 10 500 r5 = (dl, r6)"
    by (cases "random_uniform_tenths 10 500 r5")
  obtain pl r7 where 7: "random_randint 2 5 r6 = (pl, r7)"
    by (cases "random_randint 2 5 r6")
  let ?loc = "[(''timezone'', VStr tz), (''locale'', VStr lc),
      (''geolocation'', VDict [(''latitude'', VFloat la), (''longitude'', VFloat lo)]),
      (''city'', VStr ci)]"
  let ?net = "[(''connection_type'', VStr ct), (''connection_rtt'', VInt rtt),
      (''connection_downlink'', VFloat dl), (''plugins'', VInt pl)]"
  let ?p = "dict_update (dict_update p0 ?loc) ?net"
  have res: "fst (generate_ultimate_stealth_profile r) = ?p"
    using 2 by (simp add: generate_ultimate_stealth_profile_def 1 3 4 5 6 7 chosen_def Let_def)
  have same: "\<forall>k\<in>set [''os'', ''browser'', ''webgl_vendor'', ''webgl_renderer'', ''viewport'', ''screen''].
     map_of ?p k = map_of p0 k"
    by (simp add: map_of_dict_update)
  note cg = consistent_cong[OF same]
  from c 2 have "viewport_consistent p0"
    and "text_field p0 ''browser'' \<noteq> Some ''chromium'' \<longrightarrow> webgl_consistent p0"
    by simp_all
  with cg res show ?thesis
    by (simp add: profile_consistent_def)
qed

text \<open>
  Claim C6, evaluated on a failing run. With the draws all 80 the generator returns a
  Linux profile for the browser \<open>chromium\<close>: its vendor is the Chromium-family
  \<open>Google Inc. (NVIDIA)\<close>, but its renderer is not an ANGLE string. It is the
  driver's own string, the very one the Linux Firefox branch reports under the vendor
  \<open>Mozilla\<close>, so vendor and renderer are of different families. The viewport fits
  the screen.
\<close>

theorem linux_chromium_profile_inconsistent:
  "text_field (fst (generate_ultimate_stealth_profile (constant_rng 80))) ''os'' =
     Some ''Linux'' \<and>
   text_field (fst (generate_ultimate_stealth_profile (constant_rng 80))) ''browser'' =
     Some ''chromium'' \<and>
   text_field (fst (generate_ultimate_stealth_profile (constant_rng 80))) ''webgl_vendor'' =
     Some ''Google Inc. (NVIDIA)'' \<and>
   text_field (fst (generate_ultimate_stealth_profile (constant_rng 80))) ''webgl_renderer'' =
     Some ''NVIDIA GeForce RTX 3060/PCIe/SSE2'' \<and>
   ''NVIDIA GeForce RTX 3060/PCIe/SSE2'' \<in> set linux_firefox_renderers \<and>
   \<not> webgl_family_ok ''Linux'' ''chromium'' ''Google Inc. (NVIDIA)''
       ''NVIDIA GeForce RTX 3060/PCIe/SSE2'' \<and>
   \<not> profile_consistent (fst (generate_ultimate_stealth_profile (constant_rng 80))) \<and>
   viewport_consistent (fst (generate_ultimate_stealth_profile (constant_rng 80)))"
proof -
  have p: "fst (generate_ultimate_stealth_profile (constant_rng 80)) =
    [(''type'', VStr ''desktop''), (''os'', VStr ''Linux''),
     (''browser'', VStr ''chromium''),
     (''user_agent'',
      VStr ''Mozilla/5.0 (X11; Linux x86_64) AppleWebKit/537.36 (KHTML, like Gecko) Chrome/117.0.5780.180 Safari/537.36''),
     (''webgl_vendor'', VStr ''Google Inc. (NVIDIA)''),
     (''webgl_renderer'', VStr ''NVIDIA GeForce RTX 3060/PCIe/SSE2''),
     (''viewport'', VDict [(''width'', VInt 1600), (''height'', VInt 900)]),
     (''screen'', VDict [(''width'', VInt 1600), (''height'', VInt 900)]),
     (''device_scale_factor'', VFloat ([''1.0'', ''1.25''] ! (80 mod Suc (Suc 0)))),
     (''hardware_concurrency'', VInt 7), (''device_memory'', VInt 16),
     (''max_touch_points'', VInt 0), (''platform'', VStr ''Linux x86_64''),
     (''timezone'', VStr ''America/Phoenix''), (''locale'', VStr ''en-US''),
     (''geolocation'',
      VDict [(''latitude'', VFloat ''33.4484''), (''longitude'', VFloat ''-112.074'')]),
     (''city'', VStr ''Phoenix''), (''connection_type'', VStr ''ethernet''),
     (''connection_rtt'', VInt 100), (''connection_downlink'', VFloat ''9.0''),
     (''plugins'', VInt 2)]"
    by (simp add: rng_eval profile_eval linux_chromium_gpu_options_def
        linux_screen_viewport_options_def locations_def)
  have bad: "\<not> webgl_family_ok ''Linux'' ''chromium'' ''Google Inc. (NVIDIA)''
       ''NVIDIA GeForce RTX 3060/PCIe/SSE2''"
    by (simp add: webgl_family_ok_def)
  have ff: "''NVIDIA GeForce RTX 3060/PCIe/SSE2'' \<in> set linux_firefox_renderers"
    by (simp add: linux_firefox_renderers_def)
  have fields: "text_field (fst (generate_ultimate_stealth_profile (constant_rng 80))) ''os'' =
     Some ''Linux'' \<and>
   text_field (fst (generate_ultimate_stealth_profile (constant_rng 80))) ''browser'' =
     Some ''chromium'' \<and>
   text_field (fst (generate_ultimate_stealth_profile (constant_rng 80))) ''webgl_vendor'' =
     Some ''Google Inc. (NVIDIA)'' \<and>
   text_field (fst (generate_ultimate_stealth_profile (constant_rng 80))) ''webgl_renderer'' =
     Some ''NVIDIA GeForce RTX 3060/PCIe/SSE2''"
    unfolding p by (simp add: text_field_def)
  have vp: "viewport_consistent (fst (generate_ultimate_stealth_profile (constant_rng 80)))"
    unfolding p by (simp add: viewport_consistent_def viewport_fits_def dimension_def)
  from fields bad have nc:
    "\<not> profile_consistent (fst (generate_ultimate_stealth_profile (constant_rng 80)))"
    by (simp add: profile_consistent_def webgl_consistent_def)
  from fields ff bad nc vp show ?thesis by simp
qed

end
